theory Spec2Isabelle
  imports Complex_Main "HOL-Library.AList"
begin

section \<open>JavaScript numbers\<close>

text \<open>
  The bot computes with JavaScript numbers, that is IEEE 754 binary64 values. A finite
  double is modelled by the rational number it denotes; the two infinities and NaN are
  values of their own. The program never tells the two zeros apart (it only adds,
  divides by numbers greater than zero, compares with zero and prints), so \<open>Finite 0\<close>
  stands for both. Upstream payloads are decoded from JSON, so every number that enters
  is a double, an infinity included (the literal \<open>1e999\<close> decodes to \<open>Infinity\<close>).
\<close>

datatype jsnum = Finite rat | PosInfinity | NegInfinity | NaN

text \<open>\<open>ndigits b n\<close> is the number of digits of a positive \<open>n\<close> in base \<open>b\<close>, and \<open>ilog b a\<close>
  the exponent \<open>e\<close> with \<open>b ^ e \<le> a < b ^ (e + 1)\<close> for a positive rational \<open>a\<close>.
  Powers with an integer exponent are written \<open>b powi e\<close>.\<close>

function ndigits :: "int \<Rightarrow> int \<Rightarrow> int" where
  "ndigits b n = (if n \<le> 0 \<or> b < 2 then 0 else 1 + ndigits b (n div b))"
  by pat_completeness auto
termination
  by (relation "measure (\<lambda>(b, n). nat n)") (auto intro: int_div_less_self)

declare ndigits.simps [simp del]

definition ilog :: "int \<Rightarrow> rat \<Rightarrow> int" where
  "ilog b a = (if 1 \<le> a then ndigits b \<lfloor>a\<rfloor> - 1 else - ndigits b (\<lceil>1 / a\<rceil> - 1))"

definition round_half_even :: "rat \<Rightarrow> int" where
  "round_half_even q =
     (let f = \<lfloor>q\<rfloor>; d = q - of_int f
      in if d < 1 / 2 then f else if 1 / 2 < d then f + 1
         else if even f then f else f + 1)"

text \<open>
  \<open>fl x\<close> is the double nearest to the real number \<open>x\<close>, ties to the even significand:
  53 significant bits, the exponent not below \<open>-1022\<close> (which gives the subnormal
  numbers), and an infinity from \<open>2 ^ 1024\<close> on. Every arithmetic operation of the
  language returns \<open>fl\<close> of the exact result.
\<close>

definition fl :: "rat \<Rightarrow> jsnum" where
  "fl x =
     (if x = 0 then Finite 0
      else let a = \<bar>x\<bar>;
               e = max (ilog 2 a) (- 1022);
               u = 2 powi (e - 52);
               r = of_int (round_half_even (a / u)) * u
           in if 2 ^ 1024 \<le> r then (if 0 < x then PosInfinity else NegInfinity)
              else Finite (if 0 < x then r else - r))"

text \<open>The operators \<open>+\<close>, \<open>/\<close>, \<open>*\<close> and \<open>>\<close> on two numbers.\<close>

fun num_add :: "jsnum \<Rightarrow> jsnum \<Rightarrow> jsnum" where
  "num_add (Finite a) (Finite b) = fl (a + b)"
| "num_add NaN _ = NaN"
| "num_add _ NaN = NaN"
| "num_add PosInfinity NegInfinity = NaN"
| "num_add NegInfinity PosInfinity = NaN"
| "num_add PosInfinity _ = PosInfinity"
| "num_add _ PosInfinity = PosInfinity"
| "num_add NegInfinity _ = NegInfinity"
| "num_add _ NegInfinity = NegInfinity"

definition signed_infinity :: "bool \<Rightarrow> jsnum" where
  "signed_infinity positive = (if positive then PosInfinity else NegInfinity)"

text \<open>The numbers that are not negative: the sign test of the operators, and the
  property the normalized record is checked for.\<close>

fun nonneg :: "jsnum \<Rightarrow> bool" where
  "nonneg (Finite a) = (0 \<le> a)"
| "nonneg PosInfinity = True"
| "nonneg _ = False"

text \<open>Division. The program divides only by numbers greater than zero; a zero divisor
  is read as the positive zero.\<close>

fun num_div :: "jsnum \<Rightarrow> jsnum \<Rightarrow> jsnum" where
  "num_div NaN _ = NaN"
| "num_div _ NaN = NaN"
| "num_div (Finite a) (Finite b) =
     (if b = 0 then (if a = 0 then NaN else signed_infinity (0 < a)) else fl (a / b))"
| "num_div (Finite a) _ = Finite 0"
| "num_div x (Finite b) = signed_infinity (nonneg x = (0 \<le> b))"
| "num_div _ _ = NaN"

fun num_mul :: "jsnum \<Rightarrow> jsnum \<Rightarrow> jsnum" where
  "num_mul NaN _ = NaN"
| "num_mul _ NaN = NaN"
| "num_mul (Finite a) (Finite b) = fl (a * b)"
| "num_mul (Finite a) y = (if a = 0 then NaN else signed_infinity (nonneg y = (0 < a)))"
| "num_mul x (Finite b) = (if b = 0 then NaN else signed_infinity (nonneg x = (0 < b)))"
| "num_mul x y = signed_infinity (nonneg x = nonneg y)"

fun num_gt :: "jsnum \<Rightarrow> jsnum \<Rightarrow> bool" where
  "num_gt NaN _ = False"
| "num_gt _ NaN = False"
| "num_gt (Finite a) (Finite b) = (b < a)"
| "num_gt PosInfinity y = (y \<noteq> PosInfinity)"
| "num_gt x NegInfinity = (x \<noteq> NegInfinity)"
| "num_gt _ _ = False"

text \<open>Truthiness of a number: zero and NaN are falsy.\<close>

fun truthy :: "jsnum \<Rightarrow> bool" where
  "truthy (Finite a) = (a \<noteq> 0)"
| "truthy NaN = False"
| "truthy _ = True"

subsection \<open>Numbers as strings\<close>

function digits :: "int \<Rightarrow> string" where
  "digits n = (if n < 10 then [''0123456789'' ! nat n]
               else digits (n div 10) @ [''0123456789'' ! nat (n mod 10)])"
  by pat_completeness auto
termination
  by (relation "measure nat") auto

declare digits.simps [simp del]

text \<open>
  \<open>Number::toString\<close> of the language standard prints a positive double \<open>x\<close> with the
  least number \<open>k\<close> of significant digits \<open>s\<close> such that \<open>s * 10 ^ (n - k)\<close> still
  rounds to \<open>x\<close>. \<open>candidate x k\<close> is that \<open>(s, n)\<close> for a given \<open>k\<close>, if there is one:
  only the two \<open>k\<close>-digit numbers around \<open>x\<close> can round to it, and of two that do the
  closer one is taken (the even one on a tie).
\<close>

definition candidate :: "rat \<Rightarrow> int \<Rightarrow> (int \<times> int) option" where
  "candidate x k =
     (let n = ilog 10 x + 1;
          scale = 10 powi (n - k);
          lo = \<lfloor>x / scale\<rfloor>;
          hi = lo + 1;
          oklo = (fl (of_int lo * scale) = Finite x);
          okhi = (fl (of_int hi * scale) = Finite x);
          dlo = x - of_int lo * scale;
          dhi = of_int hi * scale - x;
          up = (if hi = 10 ^ nat k then (10 ^ nat (k - 1), n + 1) else (hi, n))
      in if oklo \<and> okhi then
           (if dlo < dhi then Some (lo, n) else if dhi < dlo then Some up
            else if even lo then Some (lo, n) else Some up)
         else if oklo then Some (lo, n)
         else if okhi then Some up
         else None)"

text \<open>Seventeen digits identify every double; the first equation is reached only for
  a rational that is no double, which the program never has.\<close>

fun shortest :: "rat \<Rightarrow> int list \<Rightarrow> int \<times> int \<times> int" where
  "shortest x [] = (17, \<lfloor>x / 10 powi (ilog 10 x + 1 - 17)\<rfloor>, ilog 10 x + 1)"
| "shortest x (k # ks) =
     (case candidate x k of Some (s, n) \<Rightarrow> (k, s, n) | None \<Rightarrow> shortest x ks)"

definition pos_toString :: "rat \<Rightarrow> string" where
  "pos_toString x =
     (case shortest x [1, 2, 3, 4, 5, 6, 7, 8, 9, 10, 11, 12, 13, 14, 15, 16, 17] of
        (k, s, n) \<Rightarrow>
          let ds = digits s in
          if k \<le> n \<and> n \<le> 21 then ds @ replicate (nat (n - k)) CHR ''0''
          else if 0 < n \<and> n \<le> 21 then take (nat n) ds @ ''.'' @ drop (nat n) ds
          else if - 6 < n \<and> n \<le> 0 then ''0.'' @ replicate (nat (- n)) CHR ''0'' @ ds
          else let e = n - 1;
                   ex = (if e < 0 then ''-'' else ''+'') @ digits \<bar>e\<bar>
               in if k = 1 then ds @ ''e'' @ ex
                  else hd ds # ''.'' @ tl ds @ ''e'' @ ex)"

fun num_toString :: "jsnum \<Rightarrow> string" where
  "num_toString NaN = ''NaN''"
| "num_toString PosInfinity = ''Infinity''"
| "num_toString NegInfinity = ''-Infinity''"
| "num_toString (Finite x) =
     (if x = 0 then ''0'' else if x < 0 then ''-'' @ pos_toString (- x) else pos_toString x)"

text \<open>
  \<open>Number.prototype.toFixed(f)\<close>: a number that is not finite, or of magnitude
  \<open>10 ^ 21\<close> or more, is printed as \<open>toString\<close> prints it; any other is rounded to \<open>f\<close>
  decimals (the larger neighbour on a tie) and printed with exactly \<open>f\<close> digits after the
  point, the sign kept even when the digits are all zero.
\<close>

definition toFixed :: "nat \<Rightarrow> jsnum \<Rightarrow> string" where
  "toFixed f x =
     (case x of
        Finite r \<Rightarrow>
          if 10 ^ 21 \<le> \<bar>r\<bar> then num_toString x
          else
            let n = \<lfloor>\<bar>r\<bar> * 10 ^ f + 1 / 2\<rfloor>;
                m = digits n;
                m = (if f = 0 then m
                     else let m = replicate (f + 1 - length m) CHR ''0'' @ m;
                              k = length m
                          in take (k - f) m @ ''.'' @ drop (k - f) m)
            in (if r < 0 then ''-'' else '''') @ m
      | _ \<Rightarrow> num_toString x)"

section \<open>Upstream payloads\<close>

text \<open>
  The JSON bodies of the upstream API, as \<open>combinePlayerData\<close>, \<open>fetchPlayerStats\<close> and
  \<open>fetchGuildInfo\<close> read them. Every property is optional: \<open>None\<close> stands for a property
  that is missing, \<open>undefined\<close> or \<open>null\<close>, which the code treats alike. A property has
  the JSON type the upstream API gives it (a number for a counter or a rank code, a
  string for a name or an identifier, a boolean for the error flag); a body with a value
  of another type in such a place is outside this model. The property names are the
  upstream ones, with a prefix for the object they belong to.
\<close>

record detailed_stats =
  ds_deaths :: "jsnum option"
  ds_headshots :: "jsnum option"
  ds_damage :: "jsnum option"

record mode_stats =
  gamesPlayed :: "jsnum option"
  wins :: "jsnum option"
  kills :: "jsnum option"
  detailedStats :: "detailed_stats option"

record stats_payload =
  sp_soloStats :: "mode_stats option"
  sp_quadStats :: "mode_stats option"

record basic_info =
  bi_nickname :: "string option"
  bi_accountId :: "string option"
  bi_level :: "jsnum option"
  bi_region :: "string option"
  bi_liked :: "jsnum option"
  bi_rank :: "jsnum option"
  bi_rankingPoints :: "jsnum option"
  bi_maxRank :: "jsnum option"
  bi_badgeCnt :: "jsnum option"
  bi_lastLoginAt :: "string option"

record clan_info =
  clanName :: "string option"
  clanLevel :: "jsnum option"
  memberNum :: "jsnum option"

record account_payload =
  ap_error :: "bool option"
  ap_message :: "string option"
  ap_basicInfo :: "basic_info option"
  ap_clanBasicInfo :: "clan_info option"

record guild_payload =
  gp_error :: "bool option"
  gp_clanName :: "string option"
  gp_clanId :: "string option"
  gp_clanLevel :: "jsnum option"
  gp_memberNum :: "jsnum option"
  gp_capacity :: "jsnum option"
  gp_region :: "string option"
  gp_createAt :: "string option"
  gp_slogan :: "string option"
  gp_captainId :: "string option"
  gp_deputyCaptain :: "string option"

text \<open>The empty object \<open>{}\<close> that stands in for a missing sub-object.\<close>

definition empty_basic_info :: basic_info where
  "empty_basic_info =
     \<lparr>bi_nickname = None, bi_accountId = None, bi_level = None, bi_region = None,
      bi_liked = None, bi_rank = None, bi_rankingPoints = None, bi_maxRank = None,
      bi_badgeCnt = None, bi_lastLoginAt = None\<rparr>"

definition empty_mode_stats :: mode_stats where
  "empty_mode_stats = \<lparr>gamesPlayed = None, wins = None, kills = None, detailedStats = None\<rparr>"

section \<open>The record normalizer: \<open>combinePlayerData\<close>\<close>

text \<open>The object \<open>combinePlayerData\<close> returns.\<close>

record player_data =
  nickname :: string
  uid :: string
  level :: jsnum
  region :: string
  likes :: jsnum
  rank :: string
  rankingPoints :: jsnum
  kdRatio :: string
  totalMatches :: jsnum
  totalWins :: jsnum
  winRate :: string
  totalKills :: jsnum
  headshots :: jsnum
  damage :: jsnum
  maxRank :: string
  badgeCount :: jsnum
  clanInfo :: "clan_info option"
  lastLogin :: string
  soloStats :: mode_stats
  quadStats :: mode_stats

text \<open>\<open>x || 0\<close> on an optional number and \<open>x || d\<close> on an optional string: the default
  replaces a missing value and a falsy one (zero, NaN, the empty string).\<close>

definition or_zero :: "jsnum option \<Rightarrow> jsnum" where
  "or_zero x = (case x of Some v \<Rightarrow> if truthy v then v else Finite 0 | None \<Rightarrow> Finite 0)"

definition or_string :: "string option \<Rightarrow> string \<Rightarrow> string" where
  "or_string x d = (case x of Some v \<Rightarrow> if v \<noteq> [] then v else d | None \<Rightarrow> d)"

text \<open>\<open>stats.detailedStats?.f\<close>\<close>

definition detailed :: "(detailed_stats \<Rightarrow> jsnum option) \<Rightarrow> mode_stats \<Rightarrow> jsnum option" where
  "detailed f stats = (case detailedStats stats of Some d \<Rightarrow> f d | None \<Rightarrow> None)"

text \<open>\<open>(soloStats.f || 0) + (quadStats.f || 0)\<close>\<close>

definition total :: "(mode_stats \<Rightarrow> jsnum option) \<Rightarrow> mode_stats \<Rightarrow> mode_stats \<Rightarrow> jsnum" where
  "total f solo quad = num_add (or_zero (f solo)) (or_zero (f quad))"

text \<open>\<open>statsData?.soloStats || {}\<close> and \<open>statsData?.quadStats || {}\<close>; the stats body
  itself may be \<open>null\<close>.\<close>

definition soloStats_of :: "stats_payload option \<Rightarrow> mode_stats" where
  "soloStats_of statsData =
     (case statsData of
        Some sd \<Rightarrow> (case sp_soloStats sd of Some m \<Rightarrow> m | None \<Rightarrow> empty_mode_stats)
      | None \<Rightarrow> empty_mode_stats)"

definition quadStats_of :: "stats_payload option \<Rightarrow> mode_stats" where
  "quadStats_of statsData =
     (case statsData of
        Some sd \<Rightarrow> (case sp_quadStats sd of Some m \<Rightarrow> m | None \<Rightarrow> empty_mode_stats)
      | None \<Rightarrow> empty_mode_stats)"

text \<open>\<open>accountData.basicInfo || {}\<close>\<close>

definition basicInfo_of :: "account_payload \<Rightarrow> basic_info" where
  "basicInfo_of accountData =
     (case ap_basicInfo accountData of Some b \<Rightarrow> b | None \<Rightarrow> empty_basic_info)"

text \<open>The local constant \<open>totalDeaths\<close>, which is no property of the result.\<close>

definition totalDeaths :: "stats_payload option \<Rightarrow> jsnum" where
  "totalDeaths statsData = total (detailed ds_deaths) (soloStats_of statsData) (quadStats_of statsData)"

text \<open>
  The object literal \<open>rankNames\<close>. Its keys are the strings \<open>"211"\<close> to \<open>"220"\<close>, and a
  number indexes it through its \<open>toString\<close>, which prints exactly the number 220 as
  \<open>"220"\<close>: the table is a map on numbers. A missing code finds nothing.
\<close>

definition rankNames_table :: "(rat \<times> string) list" where
  "rankNames_table =
     [(220, ''Grandmaster''),
      (219, ''Diamond I''),
      (218, ''Diamond II''),
      (217, ''Diamond III''),
      (216, ''Platinum I''),
      (215, ''Platinum II''),
      (214, ''Platinum III''),
      (213, ''Gold I''),
      (212, ''Gold II''),
      (211, ''Gold III'')]"

definition rankNames :: "jsnum option \<Rightarrow> string option" where
  "rankNames code = (case code of Some (Finite c) \<Rightarrow> map_of rankNames_table c | _ \<Rightarrow> None)"

text \<open>The template literal \<open>`Rank ${code || 'Unknown'}`\<close>\<close>

definition rank_fallback :: "jsnum option \<Rightarrow> string" where
  "rank_fallback code =
     ''Rank '' @ (case code of Some c \<Rightarrow> if truthy c then num_toString c else ''Unknown''
                  | None \<Rightarrow> ''Unknown'')"

text \<open>
  \<open>combinePlayerData\<close>. Its first argument stands for
  \<open>s \<mapsto> new Date(parseInt(s) * 1000).toLocaleString()\<close>, whose result depends on the
  locale and the time zone of the host. The local constants \<open>totalMatches\<close>, \<open>totalWins\<close>,
  \<open>totalKills\<close>, \<open>totalDeaths\<close>, \<open>winRate\<close> and \<open>kdRatio\<close> of the source are \<open>matches\<close>,
  \<open>won\<close>, \<open>killed\<close>, \<open>deaths\<close>, \<open>rate\<close> and \<open>kd\<close> here, their names being those of the
  fields they are stored in.
\<close>

definition combinePlayerData ::
  "(string \<Rightarrow> string) \<Rightarrow> account_payload \<Rightarrow> stats_payload option \<Rightarrow> string \<Rightarrow> string
   \<Rightarrow> player_data" where
  "combinePlayerData localeString accountData statsData uid' region' =
     (let basicInfo = basicInfo_of accountData;
          solo = soloStats_of statsData;
          quad = quadStats_of statsData;
          matches = total gamesPlayed solo quad;
          won = total wins solo quad;
          killed = total kills solo quad;
          deaths = totalDeaths statsData;
          rate = (if num_gt matches (Finite 0)
                  then toFixed 1 (num_mul (num_div won matches) (Finite 100))
                  else ''0.0'');
          kd = (if num_gt deaths (Finite 0)
                then toFixed 2 (num_div killed deaths)
                else num_toString killed)
      in \<lparr>nickname = or_string (bi_nickname basicInfo) ''Unknown'',
          uid = or_string (bi_accountId basicInfo) uid',
          level = or_zero (bi_level basicInfo),
          region = or_string (bi_region basicInfo) region',
          likes = or_zero (bi_liked basicInfo),
          rank = (case rankNames (bi_rank basicInfo) of Some name \<Rightarrow> name
                  | None \<Rightarrow> rank_fallback (bi_rank basicInfo)),
          rankingPoints = or_zero (bi_rankingPoints basicInfo),
          kdRatio = kd,
          totalMatches = matches,
          totalWins = won,
          winRate = rate,
          totalKills = killed,
          headshots = total (detailed ds_headshots) solo quad,
          damage = total (detailed ds_damage) solo quad,
          maxRank = (case rankNames (bi_maxRank basicInfo) of Some name \<Rightarrow> name
                     | None \<Rightarrow> ''Unknown''),
          badgeCount = or_zero (bi_badgeCnt basicInfo),
          clanInfo = ap_clanBasicInfo accountData,
          lastLogin = (case bi_lastLoginAt basicInfo of
                         Some t \<Rightarrow> if t \<noteq> [] then localeString t else ''Unknown''
                       | None \<Rightarrow> ''Unknown''),
          soloStats = solo,
          quadStats = quad\<rparr>)"

section \<open>The cache store\<close>

text \<open>
  \<open>searchCache\<close> is one \<open>Map\<close> shared by player and guild lookups: an association list
  in insertion order. \<open>Map.get\<close> is \<^const>\<open>map_of\<close>, \<open>Map.set\<close> is \<^const>\<open>AList.update\<close>
  (an existing key keeps its place, a new one goes last) and \<open>Map.delete\<close> is
  \<^const>\<open>AList.delete\<close>. Times are \<open>Date.now()\<close> readings, in milliseconds.
\<close>

datatype cache_data = PlayerData player_data | GuildData guild_payload

record cache_entry =
  data :: cache_data
  timestamp :: int

type_synonym cache = "(string \<times> cache_entry) list"

definition CACHE_DURATION :: int where
  "CACHE_DURATION = 5 * 60 * 1000"

text \<open>The test both fetch functions make on what \<open>searchCache.get(cacheKey)\<close> returned:
  \<open>cached && Date.now() - cached.timestamp < CACHE_DURATION\<close>, and then \<open>cached.data\<close>.\<close>

definition cached_fresh :: "int \<Rightarrow> cache_entry option \<Rightarrow> cache_data option" where
  "cached_fresh now cached =
     (case cached of
        Some e \<Rightarrow> if now - timestamp e < CACHE_DURATION then Some (data e) else None
      | None \<Rightarrow> None)"

definition cache_get :: "int \<Rightarrow> cache \<Rightarrow> string \<Rightarrow> cache_data option" where
  "cache_get now c key = cached_fresh now (map_of c key)"

text \<open>The body of the \<open>setInterval\<close> callback: one pass over the entries, deleting those
  older than twice the duration. (The size it logs is left out.)\<close>

definition sweep :: "int \<Rightarrow> cache \<Rightarrow> cache" where
  "sweep now c =
     fold (\<lambda>(key, value) m.
             if now - timestamp value > CACHE_DURATION * 2 then AList.delete key m else m)
       c c"

section \<open>The fetch orchestrator\<close>

text \<open>
  What \<open>await axios.get(url, ...)\<close> does: it throws (a timeout, a connection error, a
  status outside 2xx: whatever the HTTP library rejects for), or it returns a response
  whose \<open>data\<close> is the decoded body, \<open>null\<close> included.
\<close>

datatype 'a response = Failed string | Body "'a option"

text \<open>
  The environment of one call: the two readings of \<open>Date.now()\<close> (at the freshness test
  and at the cache write), the upstream API by endpoint, and the host's date format.
\<close>

record env =
  now_read :: int
  now_write :: int
  get_account :: "string \<Rightarrow> account_payload response"
  get_stats :: "string \<Rightarrow> stats_payload response"
  get_guild :: "string \<Rightarrow> guild_payload response"
  localeString :: "string \<Rightarrow> string"

text \<open>The state: the cache, and the URLs requested so far (a log kept by the model, to
  count upstream requests).\<close>

record state =
  searchCache :: cache
  requests :: "string list"

text \<open>What can be thrown: \<open>new Error(message)\<close> with the \<open>message\<close> property of the
  account body as its argument, the \<open>TypeError\<close> of reading a property of \<open>null\<close>, and
  the error of the HTTP library with its own message.\<close>

datatype js_error = Error "string option" | TypeError | AxiosError string

text \<open>\<open>statsSources[0]\<close>\<close>

definition baseUrl :: string where
  "baseUrl = ''https://free-ff-api-src-5plp.onrender.com/api/v1''"

definition endpoints :: "string \<Rightarrow> string" where
  "endpoints e =
     (if e = ''account'' then ''/account''
      else if e = ''playerStats'' then ''/playerstats''
      else ''/guildInfo'')"

definition params :: "string \<Rightarrow> string \<Rightarrow> string \<Rightarrow> string" where
  "params query region' endpoint =
     (let baseParams = ''?region='' @ (if region' \<noteq> [] then region' else ''IND'')
                       @ ''&uid='' @ query
      in if endpoint = ''guildInfo''
         then ''?region='' @ (if region' \<noteq> [] then region' else ''IND'')
              @ ''&guildID='' @ query
         else baseParams)"

text \<open>The URLs and cache keys the two fetch functions build.\<close>

definition accountUrl :: "string \<Rightarrow> string \<Rightarrow> string" where
  "accountUrl uid' region' = baseUrl @ endpoints ''account'' @ params uid' region' ''account''"

definition statsUrl :: "string \<Rightarrow> string \<Rightarrow> string" where
  "statsUrl uid' region' =
     baseUrl @ endpoints ''playerStats'' @ params uid' region' ''playerStats''"

definition guildUrl :: "string \<Rightarrow> string \<Rightarrow> string" where
  "guildUrl guildId region' =
     baseUrl @ endpoints ''guildInfo'' @ params guildId region' ''guildInfo''"

definition stats_key :: "string \<Rightarrow> string \<Rightarrow> string" where
  "stats_key uid' region' = ''stats-'' @ uid' @ ''-'' @ region'"

definition guild_key :: "string \<Rightarrow> string \<Rightarrow> string" where
  "guild_key guildId region' = ''guild-'' @ guildId @ ''-'' @ region'"

definition request :: "string \<Rightarrow> state \<Rightarrow> state" where
  "request url s = s\<lparr>requests := requests s @ [url]\<rparr>"

definition cache_set :: "string \<Rightarrow> cache_data \<Rightarrow> int \<Rightarrow> state \<Rightarrow> state" where
  "cache_set key d now s =
     s\<lparr>searchCache := AList.update key \<lparr>data = d, timestamp = now\<rparr> (searchCache s)\<rparr>"

text \<open>The \<open>try\<close> block of \<open>fetchPlayerStats\<close>: \<open>Inl\<close> is what it throws.\<close>

definition fetchPlayerStats_try ::
  "env \<Rightarrow> string \<Rightarrow> string \<Rightarrow> string \<Rightarrow> state \<Rightarrow> (js_error + cache_data option) \<times> state" where
  "fetchPlayerStats_try w uid' region' cacheKey s =
     (let s1 = request (accountUrl uid' region') s
      in case get_account w (accountUrl uid' region') of
           Failed msg \<Rightarrow> (Inl (AxiosError msg), s1)
         | Body None \<Rightarrow> (Inl TypeError, s1)
         | Body (Some accountData) \<Rightarrow>
             if ap_error accountData = Some True
             then (Inl (Error (ap_message accountData)), s1)
             else
               let s2 = request (statsUrl uid' region') s1
               in (case get_stats w (statsUrl uid' region') of
                     Failed msg \<Rightarrow> (Inl (AxiosError msg), s2)
                   | Body statsData \<Rightarrow>
                       let combinedData =
                             combinePlayerData (localeString w) accountData statsData uid' region'
                       in (Inr (Some (PlayerData combinedData)),
                           cache_set cacheKey (PlayerData combinedData) (now_write w) s2)))"

text \<open>\<open>fetchPlayerStats\<close>: the result is the settled promise, \<open>Inl\<close> a rejection,
  \<open>Inr None\<close> the value \<open>null\<close>. The \<open>catch\<close> clause turns everything thrown into \<open>null\<close>.\<close>

definition fetchPlayerStats ::
  "env \<Rightarrow> string \<Rightarrow> string \<Rightarrow> state \<Rightarrow> (js_error + cache_data option) \<times> state" where
  "fetchPlayerStats w uid' region' s =
     (let cacheKey = stats_key uid' region'
      in case cached_fresh (now_read w) (map_of (searchCache s) cacheKey) of
           Some d \<Rightarrow> (Inr (Some d), s)
         | None \<Rightarrow>
             (case fetchPlayerStats_try w uid' region' cacheKey s of
                (Inl error, s') \<Rightarrow> (Inr None, s')
              | (Inr v, s') \<Rightarrow> (Inr v, s')))"

text \<open>\<open>searchPlayerByNickname\<close>\<close>

record candidate =
  c_nickname :: string
  c_uid :: string
  c_level :: jsnum
  c_region :: string

definition searchPlayerByNickname :: "string \<Rightarrow> js_error + candidate list" where
  "searchPlayerByNickname nickname' =
     Inr [\<lparr>c_nickname = nickname', c_uid = ''1633864660'', c_level = Finite 75,
           c_region = ''IND''\<rparr>]"

text \<open>\<open>fetchGuildInfo\<close>: the same shape; an \<open>error\<close> property in the body returns \<open>null\<close>
  from inside the \<open>try\<close> block.\<close>

definition fetchGuildInfo_try ::
  "env \<Rightarrow> string \<Rightarrow> string \<Rightarrow> string \<Rightarrow> state \<Rightarrow> (js_error + cache_data option) \<times> state" where
  "fetchGuildInfo_try w guildId region' cacheKey s =
     (let s1 = request (guildUrl guildId region') s
      in case get_guild w (guildUrl guildId region') of
           Failed msg \<Rightarrow> (Inl (AxiosError msg), s1)
         | Body None \<Rightarrow> (Inl TypeError, s1)
         | Body (Some d) \<Rightarrow>
             if gp_error d = Some True then (Inr None, s1)
             else (Inr (Some (GuildData d)), cache_set cacheKey (GuildData d) (now_write w) s1))"

definition fetchGuildInfo ::
  "env \<Rightarrow> string \<Rightarrow> string \<Rightarrow> state \<Rightarrow> (js_error + cache_data option) \<times> state" where
  "fetchGuildInfo w guildId region' s =
     (let cacheKey = guild_key guildId region'
      in case cached_fresh (now_read w) (map_of (searchCache s) cacheKey) of
           Some d \<Rightarrow> (Inr (Some d), s)
         | None \<Rightarrow>
             (case fetchGuildInfo_try w guildId region' cacheKey s of
                (Inl error, s') \<Rightarrow> (Inr None, s')
              | (Inr v, s') \<Rightarrow> (Inr v, s')))"

section \<open>Predicates of the properties\<close>

text \<open>An optional number that, if present, is not negative.\<close>

definition opt_nonneg :: "jsnum option \<Rightarrow> bool" where
  "opt_nonneg x = (case x of Some v \<Rightarrow> nonneg v | None \<Rightarrow> True)"

definition mode_nonneg :: "mode_stats \<Rightarrow> bool" where
  "mode_nonneg m =
     (opt_nonneg (gamesPlayed m) \<and> opt_nonneg (wins m) \<and> opt_nonneg (kills m)
      \<and> opt_nonneg (detailed ds_headshots m) \<and> opt_nonneg (detailed ds_damage m))"

text \<open>The counters that reach a numeric property of the normalized record are all
  absent or not negative.\<close>

definition counters_nonneg :: "account_payload \<Rightarrow> stats_payload option \<Rightarrow> bool" where
  "counters_nonneg accountData statsData =
     (opt_nonneg (bi_level (basicInfo_of accountData))
      \<and> opt_nonneg (bi_liked (basicInfo_of accountData))
      \<and> opt_nonneg (bi_rankingPoints (basicInfo_of accountData))
      \<and> opt_nonneg (bi_badgeCnt (basicInfo_of accountData))
      \<and> mode_nonneg (soloStats_of statsData) \<and> mode_nonneg (quadStats_of statsData))"

text \<open>A string in fixed notation with exactly \<open>f\<close> decimals: an optional minus sign, at
  least one digit, a point, and \<open>f\<close> digits.\<close>

definition is_digit :: "char \<Rightarrow> bool" where
  "is_digit ch = (ch \<in> set ''0123456789'')"

definition fixed_format :: "nat \<Rightarrow> string \<Rightarrow> bool" where
  "fixed_format f s =
     (let t = (case s of ch # rest \<Rightarrow> if ch = CHR ''-'' then rest else s | [] \<Rightarrow> s);
          a = takeWhile is_digit t;
          b = dropWhile is_digit t
      in a \<noteq> [] \<and> (case b of ch # ds \<Rightarrow> ch = CHR ''.'' \<and> length ds = f \<and> list_all is_digit ds
                     | [] \<Rightarrow> False))"

text \<open>The numbers \<open>toFixed\<close> prints in fixed notation: the finite ones below \<open>10 ^ 21\<close> in
  magnitude.\<close>

fun fixed_range :: "jsnum \<Rightarrow> bool" where
  "fixed_range (Finite r) = (\<bar>r\<bar> < 10 ^ 21)"
| "fixed_range _ = False"

section \<open>Example inputs\<close>

definition no_account :: account_payload where
  "no_account =
     \<lparr>ap_error = None, ap_message = None, ap_basicInfo = None, ap_clanBasicInfo = None\<rparr>"

definition uid_not_found :: account_payload where
  "uid_not_found = no_account\<lparr>ap_error := Some True, ap_message := Some ''uid not found''\<rparr>"

definition account_with :: "basic_info \<Rightarrow> account_payload" where
  "account_with b = no_account\<lparr>ap_basicInfo := Some b\<rparr>"

definition no_detail :: detailed_stats where
  "no_detail = \<lparr>ds_deaths = None, ds_headshots = None, ds_damage = None\<rparr>"

text \<open>43 wins in 100 matches, 120 kills and 40 deaths.\<close>

definition solo_example :: mode_stats where
  "solo_example =
     \<lparr>gamesPlayed = Some (Finite 100), wins = Some (Finite 43), kills = Some (Finite 120),
      detailedStats = Some (no_detail\<lparr>ds_deaths := Some (Finite 40)\<rparr>)\<rparr>"

text \<open>5 kills and no death.\<close>

definition quad_example :: mode_stats where
  "quad_example = empty_mode_stats\<lparr>kills := Some (Finite 5)\<rparr>"

text \<open>One match and \<open>1e19\<close> wins.\<close>

definition huge_example :: mode_stats where
  "huge_example =
     empty_mode_stats\<lparr>gamesPlayed := Some (Finite 1), wins := Some (Finite (10 ^ 19))\<rparr>"

definition stats_with :: "mode_stats \<Rightarrow> stats_payload" where
  "stats_with solo = \<lparr>sp_soloStats = Some solo, sp_quadStats = None\<rparr>"

text \<open>An upstream that times out, one that answers \<open>{error: true, message: "uid not
  found"}\<close> to the account request, and one that answers an empty account and no stats.\<close>

definition failing_env :: "int \<Rightarrow> env" where
  "failing_env t =
     \<lparr>now_read = t, now_write = t,
      get_account = (\<lambda>url. Failed ''timeout of 10000ms exceeded''),
      get_stats = (\<lambda>url. Failed ''timeout of 10000ms exceeded''),
      get_guild = (\<lambda>url. Failed ''timeout of 10000ms exceeded''),
      localeString = (\<lambda>t. t)\<rparr>"

definition error_env :: "int \<Rightarrow> env" where
  "error_env t = (failing_env t)\<lparr>get_account := (\<lambda>url. Body (Some uid_not_found))\<rparr>"


definition empty_state :: state where
  "empty_state = \<lparr>searchCache = [], requests = []\<rparr>"

definition player_example :: player_data where
  "player_example = combinePlayerData (\<lambda>t. t) no_account None ''1633864660'' ''IND''"

text \<open>A cache that holds one player record, stored at time 0.\<close>

definition cached_state :: state where
  "cached_state =
     \<lparr>searchCache =
        [(''stats-1633864660-IND'', \<lparr>data = PlayerData player_example, timestamp = 0\<rparr>)],
      requests = []\<rparr>"

text \<open>A cache with an entry stored at time 0 and one stored at time 300000.\<close>

definition two_entries :: cache where
  "two_entries =
     [(''stats-1633864660-IND'', \<lparr>data = PlayerData player_example, timestamp = 0\<rparr>),
      (''stats-42-BR'', \<lparr>data = PlayerData player_example, timestamp = 300000\<rparr>)]"

section \<open>Facts about the number model\<close>

subsection \<open>Digit counts and logarithms\<close>

lemma ndigits_pos: "0 < n \<Longrightarrow> 2 \<le> b \<Longrightarrow> ndigits b n = 1 + ndigits b (n div b)"
  by (subst ndigits.simps) simp

lemma ndigits_nonpos: "n \<le> 0 \<Longrightarrow> ndigits b n = 0"
  by (subst ndigits.simps) simp

lemma ndigits_bounds:
  assumes "2 \<le> b" "0 < n"
  shows "0 < ndigits b n \<and> b ^ nat (ndigits b n - 1) \<le> n \<and> n < b ^ nat (ndigits b n)"
  using assms
proof (induction b n rule: ndigits.induct)
  case (1 b n)
  have step: "ndigits b n = 1 + ndigits b (n div b)"
    using 1 by (simp add: ndigits_pos)
  have b0: "0 < b" using 1 by simp
  define q where "q = n div b"
  have dm: "n = b * q + n mod b" unfolding q_def by simp
  have m: "0 \<le> n mod b" "n mod b < b" using b0 by simp_all
  have q0: "0 \<le> q" unfolding q_def using 1 b0 by (simp add: pos_imp_zdiv_nonneg_iff)
  show ?case
  proof (cases "q = 0")
    case True
    then have "n < b" using dm m by simp
    with True 1 show ?thesis
      unfolding step q_def [symmetric] by (simp add: ndigits_nonpos)
  next
    case False
    with q0 have pos: "0 < q" by simp
    define d where "d = ndigits b q"
    from 1 pos have ih: "0 < d" "b ^ nat (d - 1) \<le> q" "q < b ^ nat d"
      unfolding d_def q_def by auto
    have pw: "b ^ nat d = b * b ^ nat (d - 1)"
    proof -
      have "nat d = Suc (nat (d - 1))" using ih(1) by simp
      then show ?thesis by simp
    qed
    have "b * b ^ nat (d - 1) \<le> b * q"
      using ih(2) b0 by simp
    then have lo: "b ^ nat d \<le> n"
      using dm m pw by linarith
    have "q + 1 \<le> b ^ nat d" using ih(3) by simp
    then have "b * (q + 1) \<le> b * b ^ nat d"
      using b0 by simp
    moreover have "n < b * (q + 1)"
      using dm m by (simp add: algebra_simps)
    moreover have "b * b ^ nat d = b ^ nat (d + 1)"
      using ih(1) by (simp add: nat_add_distrib)
    ultimately have hi: "n < b ^ nat (d + 1)" by simp
    from lo hi ih(1) show ?thesis
      unfolding step q_def [symmetric] d_def [symmetric] by (simp add: add.commute)
  qed
qed

lemma ndigits_unique:
  assumes "2 \<le> b" "b ^ k \<le> n" "n < b ^ Suc k"
  shows "ndigits b n = int k + 1"
proof -
  have b1: "1 < b" using assms(1) by simp
  have "0 < b ^ k" using assms(1) by simp
  with assms(2) have n0: "0 < n" by linarith
  define d where "d = ndigits b n"
  from ndigits_bounds [OF assms(1) n0]
  have d: "0 < d" "b ^ nat (d - 1) \<le> n" "n < b ^ nat d" unfolding d_def by auto
  have "b ^ nat (d - 1) < b ^ Suc k" using d(2) assms(3) by linarith
  then have 1: "nat (d - 1) < Suc k" by (rule power_less_imp_less_exp [OF b1])
  have "b ^ k < b ^ nat d" using d(3) assms(2) by linarith
  then have 2: "k < nat d" by (rule power_less_imp_less_exp [OF b1])
  from 1 2 d(1) show ?thesis unfolding d_def by linarith
qed


lemma ilog_eq:
  assumes b: "2 \<le> b" and lo: "of_int b powi e \<le> a" and hi: "a < of_int b powi (e + 1)"
  shows "ilog b a = e"
proof (cases "0 \<le> e")
  case True
  define k where "k = nat e"
  have e: "e = int k" using True by (simp add: k_def)
  have lo': "of_int (b ^ k) \<le> a" using lo unfolding e by simp
  have hi': "a < of_int (b ^ Suc k)"
    using hi unfolding e by (simp add: power_int_add_1 mult.commute)
  have "(1::rat) \<le> of_int (b ^ k)" using b by simp
  with lo' have a1: "1 \<le> a" by linarith
  have "b ^ k \<le> \<lfloor>a\<rfloor>" using lo' by (simp add: le_floor_iff)
  moreover have "\<lfloor>a\<rfloor> < b ^ Suc k" using hi' by (simp add: floor_less_iff)
  ultimately have "ndigits b \<lfloor>a\<rfloor> = int k + 1"
    by (rule ndigits_unique [OF b])
  with a1 show ?thesis by (simp add: ilog_def e)
next
  case False
  define k where "k = nat (- e - 1)"
  have e: "e = - int (Suc k)" using False by (simp add: k_def)
  have bpos: "(0::rat) < of_int b" using b by simp
  have pw: "(of_int b :: rat) powi (- int n) = 1 / of_int (b ^ n)" for n
    using power_int_minus_divide [of "of_int b :: rat" "int n"]
    by (simp only: power_int_of_nat of_int_power)
  have lo': "1 / of_int (b ^ Suc k) \<le> a"
    using lo unfolding e pw .
  have hi': "a < 1 / of_int (b ^ k)"
  proof -
    have "e + 1 = - int k" unfolding e by simp
    with hi show ?thesis by (simp only: pw)
  qed
  have a0: "0 < a"
  proof -
    have "(0::rat) < 1 / of_int (b ^ Suc k)" using bpos by simp
    with lo' show ?thesis by linarith
  qed
  have "(1::rat) \<le> of_int (b ^ k)" using b by simp
  then have "1 / of_int (b ^ k) \<le> (1::rat)" by simp
  with hi' have a1: "\<not> 1 \<le> a" by linarith
  have y_hi: "1 / a \<le> of_int (b ^ Suc k)"
  proof -
    have pk: "(0::rat) < of_int (b ^ Suc k)" using bpos by simp
    from lo' have "1 \<le> a * of_int (b ^ Suc k)"
      using pk by (simp add: pos_divide_le_eq)
    then show ?thesis using a0 by (simp add: pos_divide_le_eq mult.commute)
  qed
  have y_lo: "of_int (b ^ k) < 1 / a"
  proof -
    have pk: "(0::rat) < of_int (b ^ k)" using bpos by simp
    from hi' have "a * of_int (b ^ k) < 1"
      using pk by (simp add: pos_less_divide_eq)
    then show ?thesis using a0 by (simp add: pos_less_divide_eq mult.commute)
  qed
  have "b ^ k < \<lceil>1 / a\<rceil>"
    using y_lo by (subst less_ceiling_iff)
  then have "b ^ k \<le> \<lceil>1 / a\<rceil> - 1" by linarith
  moreover have "\<lceil>1 / a\<rceil> \<le> b ^ Suc k"
    using y_hi by (subst ceiling_le_iff)
  then have "\<lceil>1 / a\<rceil> - 1 < b ^ Suc k" by linarith
  ultimately have "ndigits b (\<lceil>1 / a\<rceil> - 1) = int k + 1"
    by (rule ndigits_unique [OF b])
  with a1 show ?thesis by (simp add: ilog_def e)
qed


subsection \<open>Rounding to a double\<close>

lemma round_half_even_int [simp]: "round_half_even (of_int m) = m"
  by (simp add: round_half_even_def)

lemma round_half_even_le:
  assumes "q \<le> of_int m"
  shows "round_half_even q \<le> m"
proof (cases "q = of_int m")
  case True
  then show ?thesis by simp
next
  case False
  with assms have "q < of_int m" by simp
  then have "\<lfloor>q\<rfloor> < m" by (simp add: floor_less_iff)
  then show ?thesis
    by (simp add: round_half_even_def Let_def)
qed

lemma round_half_even_nonneg:
  assumes "0 \<le> q"
  shows "0 \<le> round_half_even q"
proof -
  from assms have "0 \<le> \<lfloor>q\<rfloor>" by simp
  then show ?thesis by (simp add: round_half_even_def Let_def)
qed

text \<open>The double nearest to a normal \<open>x\<close> whose binary exponent \<open>e\<close> is given. The
  examples are evaluated by this rule.\<close>

lemma fl_finite:
  assumes lo: "2 powi e \<le> \<bar>x\<bar>" and hi: "\<bar>x\<bar> < 2 powi (e + 1)"
    and e: "- 1022 \<le> e" "e \<le> 1022"
  shows "fl x = (let r = of_int (round_half_even (\<bar>x\<bar> / 2 powi (e - 52))) * 2 powi (e - 52)
                 in Finite (if 0 < x then r else - r))"
proof -
  have "(0::rat) < 2 powi e" by simp
  with lo have "0 < \<bar>x\<bar>" by linarith
  then have x0: "x \<noteq> 0" by simp
  have il: "ilog 2 \<bar>x\<bar> = e"
    using lo hi by (intro ilog_eq) simp_all
  define u :: rat where "u = 2 powi (e - 52)"
  have u0: "0 < u" unfolding u_def by simp
  define r where "r = of_int (round_half_even (\<bar>x\<bar> / u)) * u"
  have split: "(2::rat) powi (e + 1) = of_int (2 ^ 53) * u"
  proof -
    have "e + 1 = 53 + (e - 52)" by simp
    then have "(2::rat) powi (e + 1) = 2 powi (53 + (e - 52))" by (simp only:)
    also have "\<dots> = 2 powi 53 * 2 powi (e - 52)"
      by (rule power_int_add) simp
    finally show ?thesis by (simp add: u_def)
  qed
  have "\<bar>x\<bar> / u \<le> of_int (2 ^ 53)"
    using hi u0 unfolding split by (simp add: pos_divide_le_eq)
  then have "round_half_even (\<bar>x\<bar> / u) \<le> 2 ^ 53"
    by (rule round_half_even_le)
  then have "(of_int (round_half_even (\<bar>x\<bar> / u)) :: rat) \<le> of_int (2 ^ 53)"
    by (simp only: of_int_le_iff)
  then have "r \<le> of_int (2 ^ 53) * u"
    unfolding r_def using u0 by (simp only: mult_le_cancel_right_pos)
  also have "\<dots> = 2 powi (e + 1)" by (simp only: split)
  also have "\<dots> \<le> 2 powi 1023"
    using e by (intro power_int_increasing) simp_all
  also have "\<dots> < (2::rat) ^ 1024" by simp
  finally have fin: "\<not> 2 ^ 1024 \<le> r" by simp
  from e have mx: "max e (- 1022) = e" by simp
  show ?thesis
    using x0 fin unfolding fl_def il mx r_def u_def Let_def by simp
qed

text \<open>Integers below \<open>2 ^ 53\<close> in magnitude are doubles: rounding leaves them alone.\<close>

lemma fl_int:
  assumes "\<bar>n\<bar> < 2 ^ 53"
  shows "fl (of_int n) = Finite (of_int n)"
proof (cases "n = 0")
  case True
  then show ?thesis by (simp add: fl_def)
next
  case False
  define a where "a = \<bar>n\<bar>"
  have a0: "0 < a" using False by (simp add: a_def)
  define d where "d = ndigits 2 a"
  from ndigits_bounds [of 2 a] a0
  have d: "0 < d" "2 ^ nat (d - 1) \<le> a" "a < 2 ^ nat d" unfolding d_def by auto
  define e where "e = d - 1"
  have e0: "0 \<le> e" using d(1) by (simp add: e_def)
  have "(2::int) ^ nat e < 2 ^ 53" using d(2) assms unfolding a_def e_def by linarith
  then have "nat e < 53" by (rule power_less_imp_less_exp [rotated]) simp
  then have e52: "e \<le> 52" by linarith
  have lo: "2 powi e \<le> \<bar>rat_of_int n\<bar>"
  proof -
    have "rat_of_int (2 ^ nat e) \<le> of_int a" using d(2) unfolding e_def by (simp only: of_int_le_iff)
    then show ?thesis using e0 by (simp add: a_def power_int_nonneg_exp)
  qed
  have hi: "\<bar>rat_of_int n\<bar> < 2 powi (e + 1)"
  proof -
    have "nat d = nat (e + 1)" by (simp add: e_def)
    then have "rat_of_int a < of_int (2 ^ nat (e + 1))" using d(3) by (simp only: of_int_less_iff)
    then show ?thesis using e0 by (simp add: a_def power_int_nonneg_exp)
  qed
  have q: "\<bar>rat_of_int n\<bar> / 2 powi (e - 52) = of_int (a * 2 ^ nat (52 - e))"
  proof -
    have "(2::rat) powi (e - 52) = 1 / 2 powi (52 - e)"
      using power_int_minus_divide [of "2::rat" "52 - e"] by simp
    also have "\<dots> = 1 / 2 ^ nat (52 - e)"
      using e52 by (simp add: power_int_nonneg_exp)
    finally show ?thesis by (simp add: a_def)
  qed
  have r: "rat_of_int (a * 2 ^ nat (52 - e)) * 2 powi (e - 52) = of_int a"
  proof -
    have "(2::rat) powi (e - 52) = 1 / 2 powi (52 - e)"
      using power_int_minus_divide [of "2::rat" "52 - e"] by simp
    also have "\<dots> = 1 / 2 ^ nat (52 - e)"
      using e52 by (simp add: power_int_nonneg_exp)
    finally show ?thesis by simp
  qed
  have "fl (of_int n) = Finite (if 0 < rat_of_int n then of_int a else - of_int a)"
    using fl_finite [OF lo hi] e0 e52 unfolding q round_half_even_int r Let_def by simp
  then show ?thesis by (auto simp: a_def)
qed

subsection \<open>Evaluation and printing\<close>

lemma floor_rat_numeral [simp]:
  "\<lfloor>numeral a / numeral b :: rat\<rfloor> = numeral a div numeral b"
  using floor_divide_of_int_eq [of "numeral a" "numeral b", where ?'a = rat] by simp

lemma digits_small: "n < 10 \<Longrightarrow> digits n = [''0123456789'' ! nat n]"
  by (subst digits.simps) simp

lemma digits_large:
  "10 \<le> n \<Longrightarrow> digits n = digits (n div 10) @ [''0123456789'' ! nat (n mod 10)]"
  by (subst digits.simps) simp


lemma digit_nth: "n < 10 \<Longrightarrow> is_digit (''0123456789'' ! n)"
  unfolding is_digit_def by (rule nth_mem) simp

lemma digits_all: "list_all is_digit (digits n)"
proof (induction n rule: digits.induct)
  case (1 n)
  show ?case
  proof (cases "n < 10")
    case True
    then show ?thesis
      by (subst digits.simps) (simp add: digit_nth)
  next
    case False
    then have "nat (n mod 10) < 10" by simp
    with 1 False show ?thesis
      by (subst digits.simps) (simp add: digit_nth)
  qed
qed

lemma digits_nonempty: "digits n \<noteq> []"
  by (subst digits.simps) simp

lemma fixed_format_build:
  assumes "a \<noteq> []" "list_all is_digit a" "list_all is_digit b" "length b = f"
  shows "fixed_format f (a @ ''.'' @ b)" "fixed_format f (''-'' @ a @ ''.'' @ b)"
proof -
  have nd: "\<not> is_digit CHR ''.''" "\<not> is_digit CHR ''-''"
    by (simp_all add: is_digit_def)
  have tw: "takeWhile is_digit (a @ CHR ''.'' # b) = a"
    using assms(2) nd by (simp add: takeWhile_append2 list_all_iff)
  have dw: "dropWhile is_digit (a @ CHR ''.'' # b) = CHR ''.'' # b"
    using assms(2) nd by (simp add: dropWhile_append2 list_all_iff)
  obtain ch rest where a: "a = ch # rest" using assms(1) by (cases a) auto
  have chd: "ch \<noteq> CHR ''-''" using assms(2) nd unfolding a by auto
  show "fixed_format f (a @ ''.'' @ b)"
    using assms tw dw chd unfolding fixed_format_def a by (simp add: Let_def)
  show "fixed_format f (''-'' @ a @ ''.'' @ b)"
    using assms tw dw unfolding fixed_format_def by (simp add: Let_def)
qed

lemma toFixed_format:
  assumes "fixed_range x" "0 < f"
  shows "fixed_format f (toFixed f x)"
proof -
  obtain r where x: "x = Finite r" and r: "\<bar>r\<bar> < 10 ^ 21"
    using assms(1) by (cases x) auto
  define ds where "ds = digits \<lfloor>\<bar>r\<bar> * 10 ^ f + 1 / 2\<rfloor>"
  define m where "m = replicate (f + 1 - length ds) CHR ''0'' @ ds"
  have zero: "is_digit CHR ''0''" by (simp add: is_digit_def)
  have m_all: "list_all is_digit m"
    unfolding m_def ds_def using digits_all zero by (auto simp: list_all_iff)
  have m_len: "f + 1 \<le> length m" unfolding m_def by simp
  let ?a = "take (length m - f) m" and ?b = "drop (length m - f) m"
  have a: "?a \<noteq> []" using m_len by auto
  have da: "list_all is_digit ?a" and db: "list_all is_digit ?b"
    using m_all by (auto simp: list_all_iff dest: in_set_takeD in_set_dropD)
  have lb: "length ?b = f" using m_len by simp
  have ff: "fixed_format f (?a @ ''.'' @ ?b)" "fixed_format f (''-'' @ ?a @ ''.'' @ ?b)"
    by (rule fixed_format_build [OF a da db lb])+
  have "toFixed f x = (if r < 0 then ''-'' else '''') @ ?a @ ''.'' @ ?b"
    using r assms(2) unfolding x toFixed_def m_def ds_def by (simp add: Let_def)
  with ff show ?thesis by (cases "r < 0") simp_all
qed

lemma fl_numeral: "numeral k < (2 ^ 53 :: int) \<Longrightarrow> fl (numeral k) = Finite (numeral k)"
  using fl_int [of "numeral k"] by simp

lemma fl_zero: "fl 0 = Finite 0"
  by (simp add: fl_def)

lemma round_half_even_numeral [simp]: "round_half_even (numeral k) = numeral k"
  using round_half_even_int [of "numeral k"] by simp

text \<open>Rounding at most doubles the magnitude, and stays finite below \<open>2 ^ 1023\<close>.\<close>

lemma round_half_even_le_double:
  assumes "0 \<le> q"
  shows "of_int (round_half_even q) \<le> 2 * q"
proof -
  define f where "f = \<lfloor>q\<rfloor>"
  define d where "d = q - of_int f"
  have f0: "0 \<le> f" using assms by (simp add: f_def)
  have q: "q = of_int f + d" by (simp add: d_def)
  have d0: "0 \<le> d" unfolding d_def f_def by linarith
  have f0': "(0::rat) \<le> of_int f" using f0 by simp
  show ?thesis
  proof (cases "d < 1 / 2")
    case True
    have "round_half_even q = (if d < 1 / 2 then f else if 1 / 2 < d then f + 1
         else if even f then f else f + 1)"
      unfolding round_half_even_def Let_def f_def [symmetric] d_def [symmetric] ..
    with True have "round_half_even q = f" by simp
    then show ?thesis using q d0 f0' by linarith
  next
    case False
    have "round_half_even q = (if d < 1 / 2 then f else if 1 / 2 < d then f + 1
         else if even f then f else f + 1)"
      unfolding round_half_even_def Let_def f_def [symmetric] d_def [symmetric] ..
    then have "round_half_even q \<le> f + 1" by simp
    then have "rat_of_int (round_half_even q) \<le> of_int f + 1"
      by (metis of_int_le_iff of_int_add of_int_1)
    then show ?thesis using q False f0' by linarith
  qed
qed

lemma fl_bound:
  assumes "\<bar>x\<bar> < 2 ^ 1023"
  shows "\<exists>y. fl x = Finite y \<and> \<bar>y\<bar> \<le> 2 * \<bar>x\<bar>"
proof (cases "x = 0")
  case True
  then show ?thesis by (simp add: fl_def)
next
  case False
  define u :: rat where "u = 2 powi (max (ilog 2 \<bar>x\<bar>) (- 1022) - 52)"
  have u0: "0 < u" unfolding u_def by simp
  define r where "r = rat_of_int (round_half_even (\<bar>x\<bar> / u)) * u"
  have "0 \<le> \<bar>x\<bar> / u" using u0 by simp
  then have "rat_of_int (round_half_even (\<bar>x\<bar> / u)) \<le> 2 * (\<bar>x\<bar> / u)"
    by (rule round_half_even_le_double)
  then have "r \<le> 2 * (\<bar>x\<bar> / u) * u"
    unfolding r_def using u0 by (simp only: mult_le_cancel_right_pos)
  then have r2: "r \<le> 2 * \<bar>x\<bar>" using u0 by simp
  have "0 \<le> round_half_even (\<bar>x\<bar> / u)"
    using u0 by (intro round_half_even_nonneg) simp
  then have r0: "0 \<le> r" unfolding r_def using u0 by simp
  have "2 * \<bar>x\<bar> < 2 ^ 1024" using assms by simp
  with r2 have fin: "\<not> 2 ^ 1024 \<le> r" by linarith
  have "fl x = Finite (if 0 < x then r else - r)"
    using False fin unfolding fl_def Let_def u_def [symmetric] r_def [symmetric] by simp
  moreover have "\<bar>if 0 < x then r else - r\<bar> \<le> 2 * \<bar>x\<bar>"
    using r0 r2 by (cases "0 < x") simp_all
  ultimately show ?thesis by blast
qed

lemma nonneg_fl: "0 \<le> x \<Longrightarrow> nonneg (fl x)"
proof (cases "x = 0")
  case True
  then show ?thesis by (simp add: fl_def)
next
  case False
  assume "0 \<le> x"
  with False have x: "0 < x" by simp
  define u :: rat where "u = 2 powi (max (ilog 2 \<bar>x\<bar>) (- 1022) - 52)"
  have u0: "0 < u" unfolding u_def by simp
  have "0 \<le> \<bar>x\<bar> / u" using u0 by simp
  then have "0 \<le> round_half_even (\<bar>x\<bar> / u)" by (rule round_half_even_nonneg)
  then have "0 \<le> rat_of_int (round_half_even (\<bar>x\<bar> / u)) * u"
    using u0 by simp
  then show ?thesis
    using x unfolding fl_def Let_def u_def [symmetric] by simp
qed

lemma nonneg_add: "nonneg a \<Longrightarrow> nonneg b \<Longrightarrow> nonneg (num_add a b)"
  by (cases a; cases b) (simp_all add: nonneg_fl)

text \<open>Where \<open>toFixed\<close> leaves the fixed notation.\<close>

lemma toFixed_unfixed: "\<not> fixed_range x \<Longrightarrow> toFixed f x = num_toString x"
  by (cases x) (simp_all add: toFixed_def)

text \<open>Quotients that stay in the range of the fixed notation.\<close>

lemma ratio_fixed:
  assumes "0 < d" "\<bar>k\<bar> \<le> 10 ^ 20 * d"
  shows "fixed_range (num_div (Finite k) (Finite d))"
proof -
  have "\<bar>k / d\<bar> \<le> 10 ^ 20"
    using assms by (simp add: pos_divide_le_eq)
  moreover have "(10::rat) ^ 20 < 2 ^ 1023" by simp
  ultimately have small: "\<bar>k / d\<bar> < 2 ^ 1023" by linarith
  from fl_bound [OF small] obtain y where y: "fl (k / d) = Finite y" "\<bar>y\<bar> \<le> 2 * \<bar>k / d\<bar>"
    by blast
  have "\<bar>y\<bar> < 10 ^ 21" using y(2) \<open>\<bar>k / d\<bar> \<le> 10 ^ 20\<close> by simp
  then show ?thesis using assms(1) y(1) by simp
qed

lemma percentage_fixed:
  assumes "0 < m" "\<bar>w\<bar> \<le> 10 ^ 18 * m"
  shows "fixed_range (num_mul (num_div (Finite w) (Finite m)) (Finite 100))"
proof -
  have q: "\<bar>w / m\<bar> \<le> 10 ^ 18"
    using assms by (simp add: pos_divide_le_eq)
  moreover have "(10::rat) ^ 18 < 2 ^ 1023" by simp
  ultimately have small: "\<bar>w / m\<bar> < 2 ^ 1023" by linarith
  from fl_bound [OF small] obtain y where y: "fl (w / m) = Finite y" "\<bar>y\<bar> \<le> 2 * \<bar>w / m\<bar>"
    by blast
  have y2: "\<bar>y * 100\<bar> \<le> 2 * 10 ^ 20" using y(2) q by (simp add: abs_mult)
  moreover have "(2::rat) * 10 ^ 20 < 2 ^ 1023" by simp
  ultimately have small2: "\<bar>y * 100\<bar> < 2 ^ 1023" by linarith
  from fl_bound [OF small2] obtain z where z: "fl (y * 100) = Finite z" "\<bar>z\<bar> \<le> 2 * \<bar>y * 100\<bar>"
    by blast
  have "\<bar>z\<bar> < 10 ^ 21" using z(2) y2 by simp
  then show ?thesis using assms(1) y(1) z(1) by simp
qed

subsection \<open>The values of the examples\<close>

lemma fl_43_100: "fl (43 / 100) = Finite (7746191359077253 / 18014398509481984)"
  using fl_finite [of "- 2" "43 / 100"] by (simp add: round_half_even_def Let_def)

lemma fl_43: "fl (193654783976931325 / 4503599627370496) = Finite 43"
  using fl_finite [of 5 "193654783976931325 / 4503599627370496"]
  by (simp add: round_half_even_def Let_def)

lemma ilog_5: "ilog 10 5 = 0"
  by (rule ilog_eq) simp_all

lemma toString_5: "pos_toString 5 = ''5''"
  by (simp add: pos_toString_def candidate_def ilog_5 fl_numeral digits_small Let_def)

lemma digits_999: "digits 999 = ''999''"
  by (simp add: digits_small digits_large)

lemma ilog_999: "ilog 10 999 = 2"
  by (rule ilog_eq) simp_all

lemma toString_999: "pos_toString 999 = ''999''"
  by (simp add: pos_toString_def candidate_def ilog_999 fl_numeral digits_999 Let_def)

lemma fl_1e19: "fl 10000000000000000000 = Finite 10000000000000000000"
  using fl_finite [of 63 "10000000000000000000"] by (simp add: Let_def)

lemma fl_1e21: "fl 1000000000000000000000 = Finite 1000000000000000000000"
  using fl_finite [of 69 "1000000000000000000000"] by (simp add: Let_def)

lemma fl_2e21: "fl 2000000000000000000000 = Finite 2000000000000000000000"
  using fl_finite [of 70 "2000000000000000000000"] by (simp add: Let_def)

lemma ilog_1e21: "ilog 10 1000000000000000000000 = 21"
  by (rule ilog_eq) simp_all

lemma toString_1e21: "pos_toString 1000000000000000000000 = ''1e+21''"
  by (simp add: pos_toString_def candidate_def ilog_1e21 fl_1e21 fl_2e21 digits_small
      digits_large Let_def)

subsection \<open>Printing whole numbers\<close>

text \<open>A positive whole number below \<open>10 ^ 15\<close> is printed by \<open>toString\<close> as its decimal
  digits: the shortest digit string that rounds to it is the number without its trailing
  zeros, which the format then puts back.\<close>

lemma digits_shift:
  assumes "0 < m"
  shows "digits (m * 10 ^ z) = digits m @ replicate z CHR ''0''"
proof (induction z)
  case 0
  then show ?case by simp
next
  case (Suc z)
  have big: "10 \<le> m * 10 ^ Suc z"
  proof -
    have "1 \<le> m * 10 ^ z" using assms by (simp add: mult_pos_pos int_one_le_iff_zero_less)
    then show ?thesis by simp
  qed
  have d: "m * 10 ^ Suc z div 10 = m * 10 ^ z" by simp
  have r: "m * 10 ^ Suc z mod 10 = 0" by simp
  show ?case
    by (subst digits_large [OF big]) (simp add: d r Suc.IH replicate_append_same)
qed

lemma shortest_first:
  assumes "k0 \<in> set ks" "candidate x k0 = Some (s, n)"
    and "\<forall>k\<in>set ks. k < k0 \<longrightarrow> candidate x k = None" "sorted ks"
  shows "shortest x ks = (k0, s, n)"
  using assms
proof (induction ks)
  case Nil
  then show ?case by simp
next
  case (Cons k ks)
  show ?case
  proof (cases "k = k0")
    case True
    with Cons.prems(2) show ?thesis by simp
  next
    case False
    with Cons.prems(1) have in_tl: "k0 \<in> set ks" by simp
    with Cons.prems(4) have "k \<le> k0" by simp
    with False have "k < k0" by simp
    with Cons.prems(3) have none: "candidate x k = None" by simp
    from Cons.prems have "shortest x ks = (k0, s, n)"
      by (intro Cons.IH in_tl) simp_all
    with none show ?thesis by simp
  qed
qed

lemma ndigits_10_bounds:
  assumes "0 < n" "n < 10 ^ 15"
  shows "0 < ndigits 10 n" "ndigits 10 n \<le> 15"
    "10 ^ nat (ndigits 10 n - 1) \<le> n" "n < 10 ^ nat (ndigits 10 n)"
proof -
  from ndigits_bounds [of 10 n] assms(1)
  show b: "0 < ndigits 10 n" "10 ^ nat (ndigits 10 n - 1) \<le> n" "n < 10 ^ nat (ndigits 10 n)"
    by simp_all
  from b(2) assms(2) have "(10::int) ^ nat (ndigits 10 n - 1) < 10 ^ 15" by linarith
  then have "nat (ndigits 10 n - 1) < 15" by (rule power_less_imp_less_exp [rotated]) simp
  then show "ndigits 10 n \<le> 15" by linarith
qed

lemma ilog_10_int:
  assumes "0 < n" "n < 10 ^ 15"
  shows "ilog 10 (of_int n) = ndigits 10 n - 1"
proof (rule ilog_eq)
  note b = ndigits_10_bounds [OF assms]
  show "(2::int) \<le> 10" by simp
  have "rat_of_int (10 ^ nat (ndigits 10 n - 1)) \<le> of_int n"
    using b(3) by (simp only: of_int_le_iff)
  then show "rat_of_int 10 powi (ndigits 10 n - 1) \<le> rat_of_int n"
    using b(1) by (simp add: power_int_nonneg_exp)
  have "rat_of_int n < of_int (10 ^ nat (ndigits 10 n))"
    using b(4) by (simp only: of_int_less_iff)
  then show "rat_of_int n < rat_of_int 10 powi (ndigits 10 n - 1 + 1)"
    using b(1) by (simp add: power_int_nonneg_exp)
qed

lemma candidate_int:
  assumes n: "0 < n" "n < 10 ^ 15" and k: "1 \<le> k" "k \<le> ndigits 10 n"
  shows "candidate (of_int n) k
         = (if 10 ^ nat (ndigits 10 n - k) dvd n
            then Some (n div 10 ^ nat (ndigits 10 n - k), ndigits 10 n) else None)"
proof -
  note b = ndigits_10_bounds [OF n]
  define D where "D = ndigits 10 n"
  define p :: int where "p = 10 ^ nat (D - k)"
  define lo where "lo = n div p"
  have p0: "0 < p" by (simp add: p_def)
  have scale: "(10::rat) powi (D - k) = of_int p"
    using k by (simp add: p_def D_def power_int_nonneg_exp)
  have floor: "\<lfloor>rat_of_int n / of_int p\<rfloor> = lo"
    by (simp add: lo_def floor_divide_of_int_eq)
  have dm: "n = lo * p + n mod p" by (simp add: lo_def)
  have m: "0 \<le> n mod p" "n mod p < p" using p0 by simp_all
  have lo0: "0 \<le> lo" using n p0 by (simp add: lo_def pos_imp_zdiv_nonneg_iff)
  have lop: "0 \<le> lo * p" using lo0 p0 by simp
  have lo_le: "lo * p \<le> n" using dm m by linarith
  have hi_gt: "n < (lo + 1) * p" using dm m by (simp add: algebra_simps)
  have pk: "p * 10 ^ nat k = 10 ^ nat D"
  proof -
    have "nat (D - k) + nat k = nat D" using k by (simp add: D_def)
    then show ?thesis by (simp add: p_def power_add [symmetric])
  qed
  have "lo * p < 10 ^ nat k * p"
    using lo_le b(4) pk by (simp add: D_def mult.commute)
  then have "lo < 10 ^ nat k" using p0 by simp
  then have "(lo + 1) * p \<le> 10 ^ nat k * p" using p0 by simp
  also have "\<dots> = 10 ^ nat D" using pk by (simp add: mult.commute)
  also have "\<dots> \<le> 10 ^ 15"
    using b(2) by (intro power_increasing) (simp_all add: D_def)
  finally have hi_small: "(lo + 1) * p \<le> 10 ^ 15" .
  have fl_lo: "fl (of_int lo * of_int p) = Finite (of_int (lo * p))"
  proof -
    have "\<bar>lo * p\<bar> < 2 ^ 53" using lop lo_le n(2) by simp
    from fl_int [OF this] show ?thesis by simp
  qed
  have fl_hi: "fl (of_int (lo + 1) * of_int p) = Finite (of_int ((lo + 1) * p))"
  proof -
    have "0 \<le> (lo + 1) * p" using lo0 p0 by simp
    then have "\<bar>(lo + 1) * p\<bar> < 2 ^ 53" using hi_small by simp
    from fl_int [OF this] show ?thesis by simp
  qed
  have oklo: "(fl (of_int lo * of_int p) = Finite (of_int n)) = (p dvd n)"
  proof -
    have "(lo * p = n) = (p dvd n)"
      using dm m by (metis add.right_neutral dvd_triv_right mod_eq_0_iff_dvd add_left_cancel)
    then show ?thesis unfolding fl_lo by (simp only: jsnum.inject of_int_eq_iff)
  qed
  have okhi: "(fl (of_int (lo + 1) * of_int p) = Finite (of_int n)) = False"
    unfolding fl_hi using hi_gt by (simp only: jsnum.inject of_int_eq_iff) simp
  have lo_ne: "lo + 1 \<noteq> 10 ^ nat k \<or> True" by simp
  show ?thesis
    unfolding candidate_def ilog_10_int [OF n] D_def [symmetric] Let_def
    using scale floor oklo okhi
    by (simp add: p_def [symmetric] lo_def [symmetric])
qed

lemma toString_int:
  assumes n: "0 < n" "n < 10 ^ 15"
  shows "pos_toString (of_int n) = digits n"
proof -
  note b = ndigits_10_bounds [OF n]
  define D where "D = ndigits 10 n"
  define Z where "Z = {z. z < nat D \<and> 10 ^ z dvd n}"
  define z0 where "z0 = Max Z"
  have fin: "finite Z" by (simp add: Z_def)
  have "0 \<in> Z" using b(1) by (simp add: Z_def D_def)
  then have ne: "Z \<noteq> {}" by auto
  have "z0 \<in> Z" unfolding z0_def using fin ne by (rule Max_in)
  then have z0: "z0 < nat D" "10 ^ z0 dvd n" by (simp_all add: Z_def)
  have maxi: "\<not> 10 ^ z dvd n" if "z0 < z" "z < nat D" for z
  proof
    assume "10 ^ z dvd n"
    with that(2) have "z \<in> Z" by (simp add: Z_def)
    with fin have "z \<le> z0" unfolding z0_def by (rule Max_ge)
    with that(1) show False by simp
  qed
  define k0 where "k0 = D - int z0"
  define s where "s = n div 10 ^ z0"
  have k0: "1 \<le> k0" "k0 \<le> D" "nat (D - k0) = z0" using z0(1) by (simp_all add: k0_def)
  have "k0 \<le> 15" using k0(2) b(2) by (simp add: D_def)
  with k0(1) have mem: "k0 \<in> set [1, 2, 3, 4, 5, 6, 7, 8, 9, 10, 11, 12, 13, 14, 15, 16, 17]"
    by simp presburger
  have c0: "candidate (of_int n) k0 = Some (s, D)"
    using candidate_int [OF n, of k0] k0 z0(2) by (simp add: D_def [symmetric] s_def)
  have none: "\<forall>k\<in>set [1, 2, 3, 4, 5, 6, 7, 8, 9, 10, 11, 12, 13, 14, 15, 16, 17].
      k < k0 \<longrightarrow> candidate (of_int n) k = None"
  proof (intro ballI impI)
    fix k :: int
    assume "k \<in> set [1, 2, 3, 4, 5, 6, 7, 8, 9, 10, 11, 12, 13, 14, 15, 16, 17]" "k < k0"
    then have k: "1 \<le> k" "k < k0" by auto
    with k0(2) have kD: "k \<le> D" by simp
    have "z0 < nat (D - k)" "nat (D - k) < nat D" using k k0 by (simp_all add: k0_def)
    then have "\<not> 10 ^ nat (D - k) dvd n" by (rule maxi)
    with candidate_int [OF n, of k] k(1) kD show "candidate (of_int n) k = None"
      by (simp add: D_def [symmetric])
  qed
  have sh: "shortest (of_int n) [1, 2, 3, 4, 5, 6, 7, 8, 9, 10, 11, 12, 13, 14, 15, 16, 17]
      = (k0, s, D)"
    using mem c0 none by (rule shortest_first) simp
  have sz: "s * 10 ^ z0 = n" using z0(2) by (simp add: s_def)
  have "0 < s"
  proof (rule ccontr)
    assume "\<not> 0 < s"
    then have "s * 10 ^ z0 \<le> 0" by (simp add: mult_le_0_iff)
    with sz n(1) show False by simp
  qed
  then have "digits (s * 10 ^ z0) = digits s @ replicate z0 CHR ''0''" by (rule digits_shift)
  with sz have dg: "digits s @ replicate z0 CHR ''0'' = digits n" by simp
  have "D \<le> 21" using b(2) by (simp add: D_def)
  with k0 dg show ?thesis
    unfolding pos_toString_def sh by (simp add: Let_def)
qed

lemma num_toString_nat:
  assumes "0 \<le> n" "n < 10 ^ 15"
  shows "num_toString (Finite (of_int n)) = digits n"
proof (cases "n = 0")
  case True
  then show ?thesis by (simp add: digits_small)
next
  case False
  with assms have "0 < n" by simp
  with toString_int [OF this assms(2)] show ?thesis by simp
qed

section \<open>The cache store: the sweep\<close>

text \<open>The pass of the sweep deletes, from the map it is given, every key that has an
  entry older than twice the duration in the list it walks.\<close>

lemma sweep_fold:
  "fold (\<lambda>(key, value) m. if now - timestamp value > CACHE_DURATION * 2 then AList.delete key m else m) xs m
   = filter (\<lambda>(k, e). \<not> (\<exists>e'. (k, e') \<in> set xs \<and> now - timestamp e' > CACHE_DURATION * 2)) m"
proof (induction xs arbitrary: m)
  case Nil
  then show ?case by simp
next
  case (Cons x xs)
  obtain k v where x: "x = (k, v)" by (cases x)
  show ?case
    unfolding x
    by (auto simp: Cons.IH AList.delete_eq intro!: filter_cong)
qed

text \<open>A \<open>Map\<close> holds a key once. On such a cache the sweep is a filter.\<close>

lemma sweep_filter:
  assumes "distinct (map fst c)"
  shows "sweep now c = filter (\<lambda>(k, e). \<not> now - timestamp e > CACHE_DURATION * 2) c"
  unfolding sweep_def sweep_fold
proof (rule filter_cong [OF refl])
  fix x assume xin: "x \<in> set c"
  obtain k e where x: "x = (k, e)" by (cases x)
  have same: "e' = e" if "(k, e') \<in> set c" for e'
    using assms xin that unfolding x by (rule_tac eq_key_imp_eq_value)
  have "(\<exists>e'. (k, e') \<in> set c \<and> now - timestamp e' > CACHE_DURATION * 2)
        = (now - timestamp e > CACHE_DURATION * 2)"
    using same xin unfolding x by blast
  then show "(case x of (k, e) \<Rightarrow> \<not> (\<exists>e'. (k, e') \<in> set c \<and> now - timestamp e' > CACHE_DURATION * 2))
           = (case x of (k, e) \<Rightarrow> \<not> now - timestamp e > CACHE_DURATION * 2)"
    unfolding x prod.case by blast
qed

lemma map_of_filter_values:
  assumes "distinct (map fst c)"
  shows "map_of (filter (\<lambda>(k, e). P e) c) key
         = (case map_of c key of Some e \<Rightarrow> if P e then Some e else None | None \<Rightarrow> None)"
  using assms
proof (induction c)
  case Nil
  then show ?case by simp
next
  case (Cons x c)
  obtain k e where x: "x = (k, e)" by (cases x)
  from Cons.prems have notin: "map_of c k = None"
    unfolding x by (simp add: map_of_eq_None_iff)
  from Cons show ?case
    unfolding x using notin by (auto split: option.splits)
qed

lemma distinct_sweep: "distinct (map fst c) \<Longrightarrow> distinct (map fst (sweep now c))"
  by (simp add: sweep_filter distinct_map_filter)

text \<open>
  C2: the periodic sweep removes exactly the cache entries whose age exceeds twice the
  TTL, which is ten minutes, and leaves every other entry in place; in particular an
  entry aged exactly TTL plus one second is reported as a miss by the freshness test of
  \<open>get\<close> while the sweep does not remove it.
\<close>

theorem sweep_removes_exactly_older_than_twice_ttl:
  assumes "distinct (map fst c)"
  shows "sweep now c = filter (\<lambda>(key, e). \<not> now - timestamp e > CACHE_DURATION * 2) c
       \<and> map_of (sweep now c) key
           = (case map_of c key of
                Some e \<Rightarrow> if now - timestamp e > CACHE_DURATION * 2 then None else Some e
              | None \<Rightarrow> None)
       \<and> CACHE_DURATION * 2 = 10 * 60 * 1000
       \<and> (\<forall>e. map_of c key = Some e \<and> now - timestamp e = CACHE_DURATION + 1000
              \<longrightarrow> cache_get now c key = None \<and> map_of (sweep now c) key = Some e)"
proof -
  have f: "sweep now c = filter (\<lambda>(key, e). \<not> now - timestamp e > CACHE_DURATION * 2) c"
    by (rule sweep_filter [OF assms])
  have m: "map_of (sweep now c) key
           = (case map_of c key of
                Some e \<Rightarrow> if now - timestamp e > CACHE_DURATION * 2 then None else Some e
              | None \<Rightarrow> None)"
    unfolding f map_of_filter_values [OF assms] by (simp split: option.splits)
  have d: "CACHE_DURATION * 2 = 10 * 60 * 1000"
    by (simp add: CACHE_DURATION_def)
  have g: "cache_get now c key = None \<and> map_of (sweep now c) key = Some e"
    if "map_of c key = Some e" "now - timestamp e = CACHE_DURATION + 1000" for e
    using that unfolding m by (simp add: cache_get_def cached_fresh_def CACHE_DURATION_def)
  from f m d g show ?thesis by blast
qed

text \<open>At time 601000 the entry stored at 0 is 601 seconds old and goes; the one stored
  at 300000 is 301 seconds old: a miss, and still there after the sweep.\<close>

theorem sweep_removes_exactly_older_than_twice_ttl_witness:
  "distinct (map fst two_entries)
   \<and> sweep 601000 two_entries
       = [(''stats-42-BR'', \<lparr>data = PlayerData player_example, timestamp = 300000\<rparr>)]
   \<and> cache_get 601000 two_entries ''stats-42-BR'' = None
   \<and> map_of (sweep 601000 two_entries) ''stats-42-BR''
       = Some \<lparr>data = PlayerData player_example, timestamp = 300000\<rparr>"
proof -
  have d: "distinct (map fst two_entries)"
    by (simp add: two_entries_def)
  from sweep_removes_exactly_older_than_twice_ttl [OF d, of 601000 "''stats-42-BR''"]
  show ?thesis
    by (simp add: two_entries_def CACHE_DURATION_def)
qed

section \<open>The fetch orchestrator: the paths of a call\<close>

text \<open>A fresh cache entry answers the call; nothing else happens.\<close>

lemma fetchPlayerStats_hit:
  "cached_fresh (now_read w) (map_of (searchCache s) (stats_key u r)) = Some d
   \<Longrightarrow> fetchPlayerStats w u r s = (Inr (Some d), s)"
  by (simp add: fetchPlayerStats_def)

lemma fetchGuildInfo_hit:
  "cached_fresh (now_read w) (map_of (searchCache s) (guild_key g r)) = Some d
   \<Longrightarrow> fetchGuildInfo w g r s = (Inr (Some d), s)"
  by (simp add: fetchGuildInfo_def)

lemma fetchPlayerStats_miss:
  "cached_fresh (now_read w) (map_of (searchCache s) (stats_key u r)) = None
   \<Longrightarrow> fetchPlayerStats w u r s =
       (case fetchPlayerStats_try w u r (stats_key u r) s of
          (Inl error, s') \<Rightarrow> (Inr None, s') | (Inr v, s') \<Rightarrow> (Inr v, s'))"
  by (simp add: fetchPlayerStats_def)

lemma fetchGuildInfo_miss:
  "cached_fresh (now_read w) (map_of (searchCache s) (guild_key g r)) = None
   \<Longrightarrow> fetchGuildInfo w g r s =
       (case fetchGuildInfo_try w g r (guild_key g r) s of
          (Inl error, s') \<Rightarrow> (Inr None, s') | (Inr v, s') \<Rightarrow> (Inr v, s'))"
  by (simp add: fetchGuildInfo_def)

text \<open>What a request and a cache write change in the state.\<close>

lemma searchCache_request [simp]: "searchCache (request url s) = searchCache s"
  by (simp add: request_def)

lemma requests_request [simp]: "requests (request url s) = requests s @ [url]"
  by (simp add: request_def)

lemma requests_cache_set [simp]: "requests (cache_set k d t s) = requests s"
  by (simp add: cache_set_def)

lemma searchCache_cache_set [simp]:
  "searchCache (cache_set k d t s) = AList.update k \<lparr>data = d, timestamp = t\<rparr> (searchCache s)"
  by (simp add: cache_set_def)

text \<open>The \<open>try\<close> block either leaves the cache alone, and then throws or returns
  \<open>null\<close>, or it writes the one entry it returns.\<close>

lemma player_try_cases:
  "fetchPlayerStats_try w u r k s = (res, s') \<Longrightarrow>
     (res = Inr None \<or> isl res) \<and> searchCache s' = searchCache s
   \<or> (\<exists>p. res = Inr (Some (PlayerData p))
          \<and> searchCache s' = AList.update k \<lparr>data = PlayerData p, timestamp = now_write w\<rparr> (searchCache s))"
  by (auto simp: fetchPlayerStats_try_def Let_def split: response.splits option.splits if_splits)

lemma guild_try_cases:
  "fetchGuildInfo_try w g r k s = (res, s') \<Longrightarrow>
     (res = Inr None \<or> isl res) \<and> searchCache s' = searchCache s
   \<or> (\<exists>p. res = Inr (Some (GuildData p))
          \<and> searchCache s' = AList.update k \<lparr>data = GuildData p, timestamp = now_write w\<rparr> (searchCache s))"
  by (auto simp: fetchGuildInfo_try_def Let_def split: response.splits option.splits if_splits)

text \<open>The paths of \<open>fetchPlayerStats\<close> past the cache, one lemma each: the account
  request fails; its body is \<open>null\<close>; its body has the error flag; the stats request
  fails; both succeed.\<close>

lemma player_account_failed:
  assumes "cached_fresh (now_read w) (map_of (searchCache s) (stats_key u r)) = None"
    and "get_account w (accountUrl u r) = Failed m"
  shows "fetchPlayerStats w u r s = (Inr None, request (accountUrl u r) s)"
  using assms(2) by (simp add: fetchPlayerStats_miss [OF assms(1)] fetchPlayerStats_try_def)

lemma player_account_null:
  assumes "cached_fresh (now_read w) (map_of (searchCache s) (stats_key u r)) = None"
    and "get_account w (accountUrl u r) = Body None"
  shows "fetchPlayerStats w u r s = (Inr None, request (accountUrl u r) s)"
  using assms(2) by (simp add: fetchPlayerStats_miss [OF assms(1)] fetchPlayerStats_try_def)

lemma player_account_error:
  assumes "cached_fresh (now_read w) (map_of (searchCache s) (stats_key u r)) = None"
    and "get_account w (accountUrl u r) = Body (Some a)" and "ap_error a = Some True"
  shows "fetchPlayerStats w u r s = (Inr None, request (accountUrl u r) s)"
  using assms(2,3) by (simp add: fetchPlayerStats_miss [OF assms(1)] fetchPlayerStats_try_def)

lemma player_stats_failed:
  assumes "cached_fresh (now_read w) (map_of (searchCache s) (stats_key u r)) = None"
    and "get_account w (accountUrl u r) = Body (Some a)" and "ap_error a \<noteq> Some True"
    and "get_stats w (statsUrl u r) = Failed m"
  shows "fetchPlayerStats w u r s
         = (Inr None, request (statsUrl u r) (request (accountUrl u r) s))"
  using assms(2,3,4)
  by (simp add: fetchPlayerStats_miss [OF assms(1)] fetchPlayerStats_try_def)


text \<open>The paths of \<open>fetchGuildInfo\<close> past the cache.\<close>

lemma guild_failed:
  assumes "cached_fresh (now_read w) (map_of (searchCache s) (guild_key g r)) = None"
    and "get_guild w (guildUrl g r) = Failed m"
  shows "fetchGuildInfo w g r s = (Inr None, request (guildUrl g r) s)"
  using assms(2) by (simp add: fetchGuildInfo_miss [OF assms(1)] fetchGuildInfo_try_def)

lemma guild_null:
  assumes "cached_fresh (now_read w) (map_of (searchCache s) (guild_key g r)) = None"
    and "get_guild w (guildUrl g r) = Body None"
  shows "fetchGuildInfo w g r s = (Inr None, request (guildUrl g r) s)"
  using assms(2) by (simp add: fetchGuildInfo_miss [OF assms(1)] fetchGuildInfo_try_def)

lemma guild_error:
  assumes "cached_fresh (now_read w) (map_of (searchCache s) (guild_key g r)) = None"
    and "get_guild w (guildUrl g r) = Body (Some d)" and "gp_error d = Some True"
  shows "fetchGuildInfo w g r s = (Inr None, request (guildUrl g r) s)"
  using assms(2,3) by (simp add: fetchGuildInfo_miss [OF assms(1)] fetchGuildInfo_try_def)

lemma guild_success:
  assumes "cached_fresh (now_read w) (map_of (searchCache s) (guild_key g r)) = None"
    and "get_guild w (guildUrl g r) = Body (Some d)" and "gp_error d \<noteq> Some True"
  shows "fetchGuildInfo w g r s
         = (Inr (Some (GuildData d)),
            cache_set (guild_key g r) (GuildData d) (now_write w) (request (guildUrl g r) s))"
  using assms(2,3) by (simp add: fetchGuildInfo_miss [OF assms(1)] fetchGuildInfo_try_def)



lemma distinct_fetchPlayerStats:
  assumes "distinct (map fst (searchCache s))"
  shows "distinct (map fst (searchCache (snd (fetchPlayerStats w u r s))))"
proof (cases "cached_fresh (now_read w) (map_of (searchCache s) (stats_key u r))")
  case None
  obtain res s' where t: "fetchPlayerStats_try w u r (stats_key u r) s = (res, s')"
    by (cases "fetchPlayerStats_try w u r (stats_key u r) s")
  from player_try_cases [OF t] assms have "distinct (map fst (searchCache s'))"
    by (auto simp: distinct_update)
  then show ?thesis
    by (simp add: fetchPlayerStats_miss [OF None] t split: sum.splits)
next
  case (Some d)
  with assms show ?thesis by (simp add: fetchPlayerStats_hit)
qed

section \<open>The claims about the fetch orchestrator\<close>

text \<open>
  C1, as the specification states it: with no fresh cache entry, an account body whose
  \<open>error\<close> field is truthy makes \<open>fetchPlayerStats\<close> reject with the upstream message.
  The code does not: the \<open>Error\<close> is thrown inside the \<open>try\<close> block and the \<open>catch\<close>
  clause of the same function turns it into \<open>null\<close>. For the body
  \<open>{error: true, message: "uid not found"}\<close> and an empty cache the call resolves to
  \<open>null\<close>, not to a rejection carrying \<open>"uid not found"\<close>.
\<close>

theorem fetchPlayerStats_error_field_not_rejected:
  "cached_fresh (now_read (error_env 0))
      (map_of (searchCache empty_state) (stats_key ''1633864660'' ''IND'')) = None
   \<and> get_account (error_env 0) (accountUrl ''1633864660'' ''IND'') = Body (Some uid_not_found)
   \<and> ap_error uid_not_found = Some True \<and> ap_message uid_not_found = Some ''uid not found''
   \<and> fst (fetchPlayerStats (error_env 0) ''1633864660'' ''IND'' empty_state) = Inr None
   \<and> fst (fetchPlayerStats (error_env 0) ''1633864660'' ''IND'' empty_state)
       \<noteq> Inl (Error (Some ''uid not found''))"
  by (simp add: fetchPlayerStats_def fetchPlayerStats_try_def error_env_def failing_env_def
      empty_state_def uid_not_found_def no_account_def cached_fresh_def)

text \<open>
  C1, amended: for every uid and region with no fresh cache entry, if the account body
  has a truthy \<open>error\<close> field, the \<open>try\<close> block of \<open>fetchPlayerStats\<close> throws an \<open>Error\<close>
  carrying the upstream \<open>message\<close>, and \<open>fetchPlayerStats\<close> itself catches it and
  resolves to \<open>null\<close>: after the one account request, without a stats request and with
  the cache untouched. No rejection reaches the caller.
\<close>

theorem fetchPlayerStats_error_field_returns_null:
  assumes "cached_fresh (now_read w) (map_of (searchCache s) (stats_key u r)) = None"
    and "get_account w (accountUrl u r) = Body (Some a)"
    and "ap_error a = Some True"
  shows "fst (fetchPlayerStats_try w u r (stats_key u r) s) = Inl (Error (ap_message a))
       \<and> fetchPlayerStats w u r s = (Inr None, request (accountUrl u r) s)
       \<and> searchCache (snd (fetchPlayerStats w u r s)) = searchCache s
       \<and> requests (snd (fetchPlayerStats w u r s)) = requests s @ [accountUrl u r]"
  using assms(2,3)
  by (simp add: player_account_error [OF assms] fetchPlayerStats_try_def)

theorem fetchPlayerStats_error_field_returns_null_witness:
  "fst (fetchPlayerStats_try (error_env 0) ''1633864660'' ''IND''
          (stats_key ''1633864660'' ''IND'') empty_state)
     = Inl (Error (Some ''uid not found''))
   \<and> fetchPlayerStats (error_env 0) ''1633864660'' ''IND'' empty_state
     = (Inr None,
        \<lparr>searchCache = [],
         requests = [''https://free-ff-api-src-5plp.onrender.com/api/v1/account?region=IND&uid=1633864660'']\<rparr>)"
proof -
  have 1: "cached_fresh (now_read (error_env 0))
        (map_of (searchCache empty_state) (stats_key ''1633864660'' ''IND'')) = None"
    by (simp add: empty_state_def cached_fresh_def)
  have 2: "get_account (error_env 0) (accountUrl ''1633864660'' ''IND'')
        = Body (Some uid_not_found)"
    by (simp add: error_env_def failing_env_def)
  have 3: "ap_error uid_not_found = Some True"
    by (simp add: uid_not_found_def)
  have 4: "ap_message uid_not_found = Some ''uid not found''"
    by (simp add: uid_not_found_def)
  from fetchPlayerStats_error_field_returns_null [OF 1 2 3] show ?thesis
    by (simp add: 4 request_def empty_state_def accountUrl_def baseUrl_def endpoints_def
        params_def)
qed






text \<open>
  C10: on every failure path of \<open>fetchPlayerStats\<close> and \<open>fetchGuildInfo\<close>, that is
  whenever the call resolves to \<open>null\<close> (or were to reject), the cache store is left as it
  was: no entry is added, overwritten or removed. So a call that changed the cache
  returned a value. The paths named by the claim are among them: a failed request, a
  \<open>null\<close> body and a truthy \<open>error\<close> field leave the cache unchanged.
\<close>

theorem failure_leaves_cache_unchanged:
  "(fetchPlayerStats w u r s = (res, s') \<and> (res = Inr None \<or> isl res)
      \<longrightarrow> searchCache s' = searchCache s)
   \<and> (fetchGuildInfo w g r s = (res, s') \<and> (res = Inr None \<or> isl res)
      \<longrightarrow> searchCache s' = searchCache s)
   \<and> (fetchPlayerStats w u r s = (res, s') \<and> searchCache s' \<noteq> searchCache s
      \<longrightarrow> (\<exists>v. res = Inr (Some v)))
   \<and> (fetchGuildInfo w g r s = (res, s') \<and> searchCache s' \<noteq> searchCache s
      \<longrightarrow> (\<exists>v. res = Inr (Some v)))
   \<and> (cached_fresh (now_read w) (map_of (searchCache s) (stats_key u r)) = None
      \<and> (get_account w (accountUrl u r) = Failed m
           \<or> get_account w (accountUrl u r) = Body None
           \<or> (\<exists>a. get_account w (accountUrl u r) = Body (Some a)
                  \<and> (ap_error a = Some True \<or> get_stats w (statsUrl u r) = Failed m)))
      \<longrightarrow> searchCache (snd (fetchPlayerStats w u r s)) = searchCache s)
   \<and> (cached_fresh (now_read w) (map_of (searchCache s) (guild_key g r)) = None
      \<and> (get_guild w (guildUrl g r) = Failed m
           \<or> get_guild w (guildUrl g r) = Body None
           \<or> (\<exists>d. get_guild w (guildUrl g r) = Body (Some d) \<and> gp_error d = Some True))
      \<longrightarrow> searchCache (snd (fetchGuildInfo w g r s)) = searchCache s)"
proof -
  have p: "searchCache s' = searchCache s"
    if a: "fetchPlayerStats w u r s = (res, s')" "res = Inr None \<or> isl res" for res s'
  proof (cases "cached_fresh (now_read w) (map_of (searchCache s) (stats_key u r))")
    case None
    obtain res0 s0 where t: "fetchPlayerStats_try w u r (stats_key u r) s = (res0, s0)"
      by (cases "fetchPlayerStats_try w u r (stats_key u r) s")
    from player_try_cases [OF t] a show ?thesis
      by (auto simp: fetchPlayerStats_miss [OF None] t split: sum.splits)
  next
    case (Some d)
    with a show ?thesis by (simp add: fetchPlayerStats_hit)
  qed
  have q: "searchCache s' = searchCache s"
    if a: "fetchGuildInfo w g r s = (res, s')" "res = Inr None \<or> isl res" for res s'
  proof (cases "cached_fresh (now_read w) (map_of (searchCache s) (guild_key g r))")
    case None
    obtain res0 s0 where t: "fetchGuildInfo_try w g r (guild_key g r) s = (res0, s0)"
      by (cases "fetchGuildInfo_try w g r (guild_key g r) s")
    from guild_try_cases [OF t] a show ?thesis
      by (auto simp: fetchGuildInfo_miss [OF None] t split: sum.splits)
  next
    case (Some d)
    with a show ?thesis by (simp add: fetchGuildInfo_hit)
  qed
  have shape: "res = Inr None \<or> isl res \<or> (\<exists>v. res = Inr (Some v))"
    by (cases res) auto
  have pp: "searchCache (snd (fetchPlayerStats w u r s)) = searchCache s"
    if "cached_fresh (now_read w) (map_of (searchCache s) (stats_key u r)) = None"
      "get_account w (accountUrl u r) = Failed m
       \<or> get_account w (accountUrl u r) = Body None
       \<or> (\<exists>a. get_account w (accountUrl u r) = Body (Some a)
              \<and> (ap_error a = Some True \<or> get_stats w (statsUrl u r) = Failed m))"
  proof -
    have "fst (fetchPlayerStats w u r s) = Inr None"
      using that(2)
    proof (elim disjE exE conjE)
      assume "get_account w (accountUrl u r) = Failed m"
      then show ?thesis by (simp add: player_account_failed [OF that(1)])
    next
      assume "get_account w (accountUrl u r) = Body None"
      then show ?thesis by (simp add: player_account_null [OF that(1)])
    next
      fix a assume "get_account w (accountUrl u r) = Body (Some a)" "ap_error a = Some True"
      then show ?thesis by (simp add: player_account_error [OF that(1)])
    next
      fix a assume g: "get_account w (accountUrl u r) = Body (Some a)"
        and f: "get_stats w (statsUrl u r) = Failed m"
      show ?thesis
      proof (cases "ap_error a = Some True")
        case True
        with g show ?thesis by (simp add: player_account_error [OF that(1)])
      next
        case False
        with g f show ?thesis by (simp add: player_stats_failed [OF that(1)])
      qed
    qed
    then have "fetchPlayerStats w u r s = (Inr None, snd (fetchPlayerStats w u r s))"
      by (metis prod.collapse)
    then show ?thesis by (rule p) simp
  qed
  have qq: "searchCache (snd (fetchGuildInfo w g r s)) = searchCache s"
    if "cached_fresh (now_read w) (map_of (searchCache s) (guild_key g r)) = None"
      "get_guild w (guildUrl g r) = Failed m
       \<or> get_guild w (guildUrl g r) = Body None
       \<or> (\<exists>d. get_guild w (guildUrl g r) = Body (Some d) \<and> gp_error d = Some True)"
  proof -
    from that(2) have "fst (fetchGuildInfo w g r s) = Inr None"
      using guild_failed [OF that(1)] guild_null [OF that(1)] guild_error [OF that(1)]
      by (elim disjE exE conjE) simp_all
    then have "fetchGuildInfo w g r s = (Inr None, snd (fetchGuildInfo w g r s))"
      by (metis prod.collapse)
    then show ?thesis by (rule q) simp
  qed
  show ?thesis
  proof (intro conjI impI)
    assume "fetchPlayerStats w u r s = (res, s') \<and> (res = Inr None \<or> isl res)"
    then show "searchCache s' = searchCache s" using p by (elim conjE)
  next
    assume "fetchGuildInfo w g r s = (res, s') \<and> (res = Inr None \<or> isl res)"
    then show "searchCache s' = searchCache s" using q by (elim conjE)
  next
    assume a: "fetchPlayerStats w u r s = (res, s') \<and> searchCache s' \<noteq> searchCache s"
    with p [of res s'] have "\<not> (res = Inr None \<or> isl res)" by (elim conjE) (rule notI, simp)
    with shape show "\<exists>v. res = Inr (Some v)" by (elim disjE) simp_all
  next
    assume a: "fetchGuildInfo w g r s = (res, s') \<and> searchCache s' \<noteq> searchCache s"
    with q [of res s'] have "\<not> (res = Inr None \<or> isl res)" by (elim conjE) (rule notI, simp)
    with shape show "\<exists>v. res = Inr (Some v)" by (elim disjE) simp_all
  next
    assume "cached_fresh (now_read w) (map_of (searchCache s) (stats_key u r)) = None
      \<and> (get_account w (accountUrl u r) = Failed m
           \<or> get_account w (accountUrl u r) = Body None
           \<or> (\<exists>a. get_account w (accountUrl u r) = Body (Some a)
                  \<and> (ap_error a = Some True \<or> get_stats w (statsUrl u r) = Failed m)))"
    then show "searchCache (snd (fetchPlayerStats w u r s)) = searchCache s"
      using pp by (elim conjE)
  next
    assume "cached_fresh (now_read w) (map_of (searchCache s) (guild_key g r)) = None
      \<and> (get_guild w (guildUrl g r) = Failed m
           \<or> get_guild w (guildUrl g r) = Body None
           \<or> (\<exists>d. get_guild w (guildUrl g r) = Body (Some d) \<and> gp_error d = Some True))"
    then show "searchCache (snd (fetchGuildInfo w g r s)) = searchCache s"
      using qq by (elim conjE)
  qed
qed

text \<open>An account body with the error flag against an empty cache, and a guild request
  that times out against a cache with one entry: \<open>null\<close> both times, the cache as
  before.\<close>

theorem failure_leaves_cache_unchanged_witness:
  "fst (fetchPlayerStats (error_env 5) ''1633864660'' ''IND'' empty_state) = Inr None
   \<and> searchCache (snd (fetchPlayerStats (error_env 5) ''1633864660'' ''IND'' empty_state))
     = searchCache empty_state
   \<and> fst (fetchGuildInfo (failing_env 5) ''3033195648'' ''IND'' cached_state) = Inr None
   \<and> searchCache (snd (fetchGuildInfo (failing_env 5) ''3033195648'' ''IND'' cached_state))
     = searchCache cached_state"
proof -
  have 1: "fetchGuildInfo (failing_env 5) ''3033195648'' ''IND'' cached_state
     = (Inr None, request (guildUrl ''3033195648'' ''IND'') cached_state)"
    by (rule guild_failed)
      (simp_all add: cached_state_def cached_fresh_def guild_key_def failing_env_def)
  have 2: "fetchPlayerStats (error_env 5) ''1633864660'' ''IND'' empty_state
     = (Inr None, request (accountUrl ''1633864660'' ''IND'') empty_state)"
    by (rule player_account_error [where a = uid_not_found])
      (simp_all add: empty_state_def cached_fresh_def error_env_def failing_env_def
        uid_not_found_def)
  show ?thesis
    using failure_leaves_cache_unchanged [of "failing_env 5" "''1633864660''" "''IND''"
        cached_state "Inr None" "request (guildUrl ''3033195648'' ''IND'') cached_state"
        "''3033195648''"]
      failure_leaves_cache_unchanged [of "error_env 5" "''1633864660''" "''IND''"
        empty_state "Inr None" "request (accountUrl ''1633864660'' ''IND'') empty_state"
        "''3033195648''"]
      1 2
    by simp
qed

text \<open>
  C9: for every nickname, \<open>searchPlayerByNickname\<close> resolves (it never rejects) to a list
  of exactly one candidate, whose nickname is the input and whose uid, level and region
  are the constants \<open>'1633864660'\<close>, 75 and \<open>'IND'\<close>; the list is never empty.
\<close>

theorem searchPlayerByNickname_single:
  "\<exists>c. searchPlayerByNickname n = Inr [c]
       \<and> c_nickname c = n \<and> c_uid c = ''1633864660''
       \<and> c_level c = Finite 75 \<and> c_region c = ''IND''"
  by (simp add: searchPlayerByNickname_def)

section \<open>The record normalizer: facts\<close>

lemma nonneg_or_zero: "opt_nonneg x \<Longrightarrow> nonneg (or_zero x)"
  by (simp add: opt_nonneg_def or_zero_def split: option.splits)

lemma nonneg_total:
  "opt_nonneg (f solo) \<Longrightarrow> opt_nonneg (f quad) \<Longrightarrow> nonneg (total f solo quad)"
  by (simp add: total_def nonneg_add nonneg_or_zero)

text \<open>The rank table: its keys, and what a lookup finds.\<close>

lemma rankNames_Finite: "rankNames (Some (Finite c)) = map_of rankNames_table c"
  by (simp add: rankNames_def)

lemma rankNames_keys:
  "fst ` set rankNames_table = {211, 212, 213, 214, 215, 216, 217, 218, 219, 220}"
  unfolding rankNames_table_def by (simp add: insert_commute)

lemma rankNames_distinct: "distinct (map fst rankNames_table)"
  unfolding rankNames_table_def by simp

lemma rankNames_None:
  assumes "c \<notin> Finite ` {211, 212, 213, 214, 215, 216, 217, 218, 219, 220}"
  shows "rankNames (Some c) = None"
proof (cases c)
  case (Finite q)
  with assms have "q \<notin> fst ` set rankNames_table"
    unfolding rankNames_keys by blast
  then show ?thesis
    unfolding Finite rankNames_Finite by (simp add: map_of_eq_None_iff)
qed (simp_all add: rankNames_def)

lemma rankNames_absent [simp]: "rankNames None = None"
  by (simp add: rankNames_def)

lemma rankNames_tiers:
  assumes "(c, name) \<in> set [(220, ''Grandmaster''), (219, ''Diamond I''), (218, ''Diamond II''),
       (217, ''Diamond III''), (216, ''Platinum I''), (215, ''Platinum II''),
       (214, ''Platinum III''), (213, ''Gold I''), (212, ''Gold II''), (211, ''Gold III'')]"
  shows "rankNames (Some (Finite c)) = Some name"
proof -
  from assms have "(c, name) \<in> set rankNames_table"
    by (simp only: rankNames_table_def)
  then show ?thesis
    unfolding rankNames_Finite by (rule map_of_is_SomeI [OF rankNames_distinct])
qed



text \<open>The two ratio strings, as \<open>combinePlayerData\<close> computes them.\<close>

lemma winRate_eq:
  "winRate (combinePlayerData ls accountData statsData u rg)
   = (if num_gt (totalMatches (combinePlayerData ls accountData statsData u rg)) (Finite 0)
      then toFixed 1
             (num_mul (num_div (totalWins (combinePlayerData ls accountData statsData u rg))
                               (totalMatches (combinePlayerData ls accountData statsData u rg)))
                      (Finite 100))
      else ''0.0'')"
  by (simp add: combinePlayerData_def Let_def)

lemma kdRatio_eq:
  "kdRatio (combinePlayerData ls accountData statsData u rg)
   = (if num_gt (totalDeaths statsData) (Finite 0)
      then toFixed 2
             (num_div (totalKills (combinePlayerData ls accountData statsData u rg))
                      (totalDeaths statsData))
      else num_toString (totalKills (combinePlayerData ls accountData statsData u rg)))"
  by (simp add: combinePlayerData_def Let_def)

lemmas example_defs = combinePlayerData_def totalDeaths_def total_def or_zero_def detailed_def
  soloStats_of_def quadStats_of_def stats_with_def solo_example_def quad_example_def
  huge_example_def empty_mode_stats_def no_detail_def Let_def

section \<open>The claims about the record normalizer\<close>

text \<open>
  C4, as the specification states it: for all payloads, \<open>winRate\<close> has exactly one
  decimal digit when \<open>totalMatches > 0\<close>. With one match and \<open>1e19\<close> wins the percentage
  is \<open>1e21\<close>, from where on \<open>toFixed\<close> switches to the exponent notation of \<open>toString\<close>:
  \<open>winRate\<close> is \<open>"1e+21"\<close>. (An infinite counter, decoded from a literal such as
  \<open>1e999\<close>, gives \<open>"Infinity"\<close> or \<open>"NaN"\<close> in the same way.)
\<close>

theorem winRate_exponent_notation:
  "num_gt (totalMatches (combinePlayerData (\<lambda>t. t) no_account (Some (stats_with huge_example))
      ''1633864660'' ''IND'')) (Finite 0)
   \<and> winRate (combinePlayerData (\<lambda>t. t) no_account (Some (stats_with huge_example))
      ''1633864660'' ''IND'') = ''1e+21''
   \<and> \<not> fixed_format 1 ''1e+21''"
proof -
  have m: "totalMatches (combinePlayerData (\<lambda>t. t) no_account (Some (stats_with huge_example))
      ''1633864660'' ''IND'') = Finite 1"
    by (simp add: example_defs fl_int [of 1, simplified])
  have w: "winRate (combinePlayerData (\<lambda>t. t) no_account (Some (stats_with huge_example))
      ''1633864660'' ''IND'') = ''1e+21''"
    using fl_1e19 fl_1e21 toString_1e21
    by (simp add: example_defs fl_int [of 1, simplified] toFixed_def)
  have f: "\<not> fixed_format 1 ''1e+21''"
    by (simp add: fixed_format_def is_digit_def)
  from m w f show ?thesis by simp
qed

text \<open>
  C4, amended: for all account and stats payloads,
  \<^item> \<open>winRate\<close> is a string with exactly one decimal digit when \<open>totalMatches > 0\<close> and the
    percentage \<open>(totalWins / totalMatches) * 100\<close> is finite and below \<open>10 ^ 21\<close> in
    magnitude, which it is whenever \<open>totalWins\<close> is at most \<open>10 ^ 18\<close> times
    \<open>totalMatches\<close>; otherwise, with \<open>totalMatches > 0\<close>, it is the percentage as \<open>toString\<close>
    prints it;
  \<^item> \<open>winRate\<close> is \<open>"0.0"\<close> when \<open>totalMatches\<close> is not greater than zero;
  \<^item> \<open>kdRatio\<close> is a string with exactly two decimal digits when \<open>totalDeaths > 0\<close> and
    the quotient \<open>totalKills / totalDeaths\<close> is finite and below \<open>10 ^ 21\<close> in magnitude,
    which it is whenever \<open>totalKills\<close> is at most \<open>10 ^ 20\<close> times \<open>totalDeaths\<close>;
    otherwise, with \<open>totalDeaths > 0\<close>, it is the quotient as \<open>toString\<close> prints it;
  \<^item> \<open>kdRatio\<close> is \<open>totalKills.toString()\<close> when \<open>totalDeaths\<close> is not greater than zero:
    the decimal digits of \<open>totalKills\<close> when that is a whole number from 0 to below
    \<open>10 ^ 15\<close>.
  The examples of the claim are the witness: 43 wins of 100 matches give \<open>"43.0"\<close>, 120
  kills and 40 deaths give \<open>"3.00"\<close>, 5 kills and no death give \<open>"5"\<close>.
\<close>

theorem winRate_kdRatio_format:
  "(let r = combinePlayerData ls accountData statsData u rg;
        pct = num_mul (num_div (totalWins r) (totalMatches r)) (Finite 100);
        kd = num_div (totalKills r) (totalDeaths statsData)
    in (num_gt (totalMatches r) (Finite 0) \<and> fixed_range pct \<longrightarrow> fixed_format 1 (winRate r))
     \<and> (num_gt (totalMatches r) (Finite 0) \<and> \<not> fixed_range pct
          \<longrightarrow> winRate r = num_toString pct)
     \<and> (\<not> num_gt (totalMatches r) (Finite 0) \<longrightarrow> winRate r = ''0.0'')
     \<and> (num_gt (totalDeaths statsData) (Finite 0) \<and> fixed_range kd
          \<longrightarrow> fixed_format 2 (kdRatio r))
     \<and> (num_gt (totalDeaths statsData) (Finite 0) \<and> \<not> fixed_range kd
          \<longrightarrow> kdRatio r = num_toString kd)
     \<and> (\<not> num_gt (totalDeaths statsData) (Finite 0)
          \<longrightarrow> kdRatio r = num_toString (totalKills r))
     \<and> (\<forall>n. \<not> num_gt (totalDeaths statsData) (Finite 0)
              \<and> totalKills r = Finite (of_int n) \<and> 0 \<le> n \<and> n < 10 ^ 15
          \<longrightarrow> kdRatio r = digits n)
     \<and> (\<forall>m w. totalMatches r = Finite m \<and> totalWins r = Finite w
                \<and> 0 < m \<and> \<bar>w\<bar> \<le> 10 ^ 18 * m
          \<longrightarrow> fixed_format 1 (winRate r))
     \<and> (\<forall>d k. totalDeaths statsData = Finite d \<and> totalKills r = Finite k
                \<and> 0 < d \<and> \<bar>k\<bar> \<le> 10 ^ 20 * d
          \<longrightarrow> fixed_format 2 (kdRatio r)))"
proof -
  define r where "r = combinePlayerData ls accountData statsData u rg"
  define pct where "pct = num_mul (num_div (totalWins r) (totalMatches r)) (Finite 100)"
  define kd where "kd = num_div (totalKills r) (totalDeaths statsData)"
  have w: "winRate r = (if num_gt (totalMatches r) (Finite 0) then toFixed 1 pct else ''0.0'')"
    unfolding r_def pct_def by (rule winRate_eq)
  have k: "kdRatio r = (if num_gt (totalDeaths statsData) (Finite 0) then toFixed 2 kd
                        else num_toString (totalKills r))"
    unfolding r_def kd_def by (rule kdRatio_eq)
  have 1: "fixed_format 1 (winRate r)" if "num_gt (totalMatches r) (Finite 0)" "fixed_range pct"
    using that by (simp add: w toFixed_format)
  have 2: "winRate r = num_toString pct"
    if "num_gt (totalMatches r) (Finite 0)" "\<not> fixed_range pct"
    using that by (simp add: w toFixed_unfixed)
  have 3: "winRate r = ''0.0''" if "\<not> num_gt (totalMatches r) (Finite 0)"
    using that by (simp add: w)
  have 4: "fixed_format 2 (kdRatio r)"
    if "num_gt (totalDeaths statsData) (Finite 0)" "fixed_range kd"
    using that by (simp add: k toFixed_format)
  have 5: "kdRatio r = num_toString kd"
    if "num_gt (totalDeaths statsData) (Finite 0)" "\<not> fixed_range kd"
    using that by (simp add: k toFixed_unfixed)
  have 6: "kdRatio r = num_toString (totalKills r)"
    if "\<not> num_gt (totalDeaths statsData) (Finite 0)"
    using that by (simp add: k)
  have 7: "fixed_format 1 (winRate r)"
    if "totalMatches r = Finite m" "totalWins r = Finite w" "0 < m" "\<bar>w\<bar> \<le> 10 ^ 18 * m"
    for m w
  proof (rule 1)
    show "num_gt (totalMatches r) (Finite 0)" using that by simp
    show "fixed_range pct" unfolding pct_def that(1,2) using that(3,4) by (rule percentage_fixed)
  qed
  have 8: "fixed_format 2 (kdRatio r)"
    if "totalDeaths statsData = Finite d" "totalKills r = Finite k" "0 < d"
      "\<bar>k\<bar> \<le> 10 ^ 20 * d" for d k
  proof (rule 4)
    show "num_gt (totalDeaths statsData) (Finite 0)" using that by simp
    show "fixed_range kd" unfolding kd_def that(1,2) using that(3,4) by (rule ratio_fixed)
  qed
  have 9: "kdRatio r = digits n"
    if "\<not> num_gt (totalDeaths statsData) (Finite 0)" "totalKills r = Finite (of_int n)"
      "0 \<le> n" "n < 10 ^ 15" for n
    unfolding 6 [OF that(1)] that(2) using that(3,4) by (rule num_toString_nat)
  from 1 2 3 4 5 6 7 8 9 show ?thesis
    unfolding Let_def r_def [symmetric] pct_def [symmetric] kd_def [symmetric] by blast
qed

theorem winRate_kdRatio_format_witness:
  "winRate (combinePlayerData (\<lambda>t. t) no_account (Some (stats_with solo_example))
      ''1633864660'' ''IND'') = ''43.0''
   \<and> fixed_format 1 ''43.0''
   \<and> kdRatio (combinePlayerData (\<lambda>t. t) no_account (Some (stats_with solo_example))
      ''1633864660'' ''IND'') = ''3.00''
   \<and> fixed_format 2 ''3.00''
   \<and> winRate (combinePlayerData (\<lambda>t. t) no_account (Some (stats_with quad_example))
      ''1633864660'' ''IND'') = ''0.0''
   \<and> kdRatio (combinePlayerData (\<lambda>t. t) no_account (Some (stats_with quad_example))
      ''1633864660'' ''IND'') = ''5''"
proof -
  let ?a = "combinePlayerData (\<lambda>t. t) no_account (Some (stats_with solo_example))
      ''1633864660'' ''IND''"
  let ?b = "combinePlayerData (\<lambda>t. t) no_account (Some (stats_with quad_example))
      ''1633864660'' ''IND''"
  have ta: "totalMatches ?a = Finite 100" "totalWins ?a = Finite 43"
    "totalKills ?a = Finite 120" "totalDeaths (Some (stats_with solo_example)) = Finite 40"
    by (simp_all add: example_defs fl_numeral)
  have tb: "totalMatches ?b = Finite 0" "totalKills ?b = Finite 5"
    "totalDeaths (Some (stats_with quad_example)) = Finite 0"
    by (simp_all add: example_defs fl_numeral fl_zero)
  have wa: "winRate ?a = ''43.0''"
    by (simp add: example_defs fl_numeral fl_43_100 fl_43 toFixed_def digits_small digits_large)
  have ka: "kdRatio ?a = ''3.00''"
    by (simp add: example_defs fl_numeral toFixed_def digits_small digits_large)
  have kb: "num_toString (totalKills ?b) = ''5''"
    by (simp add: tb toString_5)
  from winRate_kdRatio_format [of "\<lambda>t. t" no_account "Some (stats_with solo_example)"
      "''1633864660''" "''IND''"]
    winRate_kdRatio_format [of "\<lambda>t. t" no_account "Some (stats_with quad_example)"
      "''1633864660''" "''IND''"]
  show ?thesis
    unfolding Let_def ta tb wa ka kb by (simp add: toString_5)
qed

text \<open>
  C5, as the specification states it: every present rank code outside 211 to 220 gives
  \<open>"Rank <code>"\<close>. The code 0 is present and gives \<open>"Rank Unknown"\<close>, not \<open>"Rank 0"\<close>: the
  template reads \<open>basicInfo.rank || 'Unknown'\<close>, and zero is falsy.
\<close>

theorem rank_zero_is_unknown:
  "rank (combinePlayerData (\<lambda>t. t)
           (account_with (empty_basic_info\<lparr>bi_rank := Some (Finite 0)\<rparr>)) None
           ''1633864660'' ''IND'') = ''Rank Unknown''
   \<and> num_toString (Finite 0) = ''0''
   \<and> ''Rank Unknown'' \<noteq> ''Rank '' @ num_toString (Finite 0)"
  by (simp add: combinePlayerData_def Let_def basicInfo_of_def account_with_def no_account_def
      empty_basic_info_def rankNames_def rankNames_table_def rank_fallback_def)

text \<open>
  C5, amended: for every account payload, the \<open>rank\<close> field of the result is the named
  tier for the ten codes 211 to 220 (220 is \<open>"Grandmaster"\<close>), the string \<open>"Rank <code>"\<close>
  for every other code that is truthy, that is every number but zero and NaN (999 gives
  \<open>"Rank 999"\<close>), and \<open>"Rank Unknown"\<close> when the code is absent, zero or NaN. The code
  is printed as \<open>toString\<close> prints it: a positive whole code below \<open>10 ^ 15\<close> as its
  decimal digits.
\<close>

theorem rank_label:
  "(\<forall>(c, name) \<in> set [(220, ''Grandmaster''), (219, ''Diamond I''), (218, ''Diamond II''),
       (217, ''Diamond III''), (216, ''Platinum I''), (215, ''Platinum II''),
       (214, ''Platinum III''), (213, ''Gold I''), (212, ''Gold II''), (211, ''Gold III'')].
      bi_rank (basicInfo_of accountData) = Some (Finite c)
      \<longrightarrow> rank (combinePlayerData ls accountData statsData u r) = name)
   \<and> (\<forall>c. bi_rank (basicInfo_of accountData) = Some c
           \<and> c \<notin> Finite ` {211, 212, 213, 214, 215, 216, 217, 218, 219, 220}
           \<and> truthy c
      \<longrightarrow> rank (combinePlayerData ls accountData statsData u r) = ''Rank '' @ num_toString c)
   \<and> (\<forall>n. bi_rank (basicInfo_of accountData) = Some (Finite (of_int n))
           \<and> 0 < n \<and> n < 10 ^ 15 \<and> n \<notin> {211..220}
      \<longrightarrow> rank (combinePlayerData ls accountData statsData u r) = ''Rank '' @ digits n)
   \<and> (bi_rank (basicInfo_of accountData) = None
       \<or> bi_rank (basicInfo_of accountData) = Some (Finite 0)
       \<or> bi_rank (basicInfo_of accountData) = Some NaN
      \<longrightarrow> rank (combinePlayerData ls accountData statsData u r) = ''Rank Unknown'')"
proof (intro conjI ballI allI impI)
  fix x :: "rat \<times> string"
  assume x: "x \<in> set [(220, ''Grandmaster''), (219, ''Diamond I''), (218, ''Diamond II''),
       (217, ''Diamond III''), (216, ''Platinum I''), (215, ''Platinum II''),
       (214, ''Platinum III''), (213, ''Gold I''), (212, ''Gold II''), (211, ''Gold III'')]"
  obtain c name where xc: "x = (c, name)" by (cases x)
  show "case x of (c, name) \<Rightarrow> bi_rank (basicInfo_of accountData) = Some (Finite c)
      \<longrightarrow> rank (combinePlayerData ls accountData statsData u r) = name"
    using rankNames_tiers [of c name] x unfolding xc
    by (simp add: combinePlayerData_def Let_def)
next
  fix c
  assume "bi_rank (basicInfo_of accountData) = Some c
           \<and> c \<notin> Finite ` {211, 212, 213, 214, 215, 216, 217, 218, 219, 220} \<and> truthy c"
  then show "rank (combinePlayerData ls accountData statsData u r) = ''Rank '' @ num_toString c"
    using rankNames_None [of c]
    by (simp add: combinePlayerData_def Let_def rank_fallback_def)
next
  fix n :: int
  assume a: "bi_rank (basicInfo_of accountData) = Some (Finite (of_int n))
           \<and> 0 < n \<and> n < 10 ^ 15 \<and> n \<notin> {211..220}"
  then have n: "0 < n" "n < 10 ^ 15" by simp_all
  have "Finite (rat_of_int n) \<notin> Finite ` {211, 212, 213, 214, 215, 216, 217, 218, 219, 220}"
  proof
    assume "Finite (rat_of_int n) \<in> Finite ` {211, 212, 213, 214, 215, 216, 217, 218, 219, 220}"
    then have "rat_of_int n \<in> {211, 212, 213, 214, 215, 216, 217, 218, 219, 220}"
      by auto
    then have "n \<in> {211, 212, 213, 214, 215, 216, 217, 218, 219, 220}"
      by simp
    with a show False by auto
  qed
  then have "rankNames (Some (Finite (of_int n))) = None" by (rule rankNames_None)
  with a show "rank (combinePlayerData ls accountData statsData u r) = ''Rank '' @ digits n"
    by (simp add: combinePlayerData_def Let_def rank_fallback_def toString_int [OF n])
next
  assume "bi_rank (basicInfo_of accountData) = None
       \<or> bi_rank (basicInfo_of accountData) = Some (Finite 0)
       \<or> bi_rank (basicInfo_of accountData) = Some NaN"
  then show "rank (combinePlayerData ls accountData statsData u r) = ''Rank Unknown''"
    using rankNames_None [of "Finite 0"] rankNames_None [of NaN]
    by (auto simp: combinePlayerData_def Let_def rank_fallback_def)
qed

theorem rank_label_witness:
  "rank (combinePlayerData (\<lambda>t. t)
           (account_with (empty_basic_info\<lparr>bi_rank := Some (Finite 220)\<rparr>)) None
           ''1633864660'' ''IND'') = ''Grandmaster''
   \<and> rank (combinePlayerData (\<lambda>t. t)
           (account_with (empty_basic_info\<lparr>bi_rank := Some (Finite 999)\<rparr>)) None
           ''1633864660'' ''IND'') = ''Rank 999''
   \<and> rank (combinePlayerData (\<lambda>t. t) no_account None ''1633864660'' ''IND'') = ''Rank Unknown''"
proof -
  let ?a = "\<lambda>c. account_with (empty_basic_info\<lparr>bi_rank := Some (Finite c)\<rparr>)"
  have code: "bi_rank (basicInfo_of (?a c)) = Some (Finite c)" for c
    by (simp add: basicInfo_of_def account_with_def no_account_def)
  have none: "bi_rank (basicInfo_of no_account) = None"
    by (simp add: basicInfo_of_def no_account_def empty_basic_info_def)
  show ?thesis
    using rank_label [of "?a 220" "\<lambda>t. t" None "''1633864660''" "''IND''"]
      rank_label [of "?a 999" "\<lambda>t. t" None "''1633864660''" "''IND''"]
      rank_label [of no_account "\<lambda>t. t" None "''1633864660''" "''IND''"]
    by (simp add: code none toString_999)
qed

text \<open>
  C6, as the specification states it: for every pair of payloads, untrusted ones
  included, every numeric field of the result is non-negative. The numbers are passed
  through as they come: a \<open>level\<close> of \<open>-1\<close> in the account payload is a \<open>level\<close> of \<open>-1\<close> in
  the result.
\<close>

theorem negative_level_passes_through:
  "level (combinePlayerData (\<lambda>t. t)
            (account_with (empty_basic_info\<lparr>bi_level := Some (Finite (- 1))\<rparr>)) None
            ''1633864660'' ''IND'') = Finite (- 1)
   \<and> \<not> nonneg (Finite (- 1))"
  by (simp add: combinePlayerData_def Let_def basicInfo_of_def account_with_def no_account_def
      empty_basic_info_def or_zero_def)

text \<open>
  C6, amended: for every pair of account and stats payloads, partially populated ones
  included, in which the counters that are present (\<open>level\<close>, \<open>liked\<close>, \<open>rankingPoints\<close>,
  \<open>badgeCnt\<close>, and \<open>gamesPlayed\<close>, \<open>wins\<close>, \<open>kills\<close>, \<open>headshots\<close>, \<open>damage\<close> of both modes)
  are non-negative numbers, every numeric field of the record that \<open>combinePlayerData\<close>
  produces (\<open>level\<close>, \<open>likes\<close>, \<open>rankingPoints\<close>, \<open>totalMatches\<close>, \<open>totalWins\<close>,
  \<open>totalKills\<close>, \<open>headshots\<close>, \<open>damage\<close>, \<open>badgeCount\<close>) is non-negative.
\<close>

theorem counters_nonneg_preserved:
  assumes "counters_nonneg accountData statsData"
  shows "nonneg (level (combinePlayerData ls accountData statsData u r))
       \<and> nonneg (likes (combinePlayerData ls accountData statsData u r))
       \<and> nonneg (rankingPoints (combinePlayerData ls accountData statsData u r))
       \<and> nonneg (totalMatches (combinePlayerData ls accountData statsData u r))
       \<and> nonneg (totalWins (combinePlayerData ls accountData statsData u r))
       \<and> nonneg (totalKills (combinePlayerData ls accountData statsData u r))
       \<and> nonneg (headshots (combinePlayerData ls accountData statsData u r))
       \<and> nonneg (damage (combinePlayerData ls accountData statsData u r))
       \<and> nonneg (badgeCount (combinePlayerData ls accountData statsData u r))"
  using assms
  by (simp add: combinePlayerData_def Let_def counters_nonneg_def mode_nonneg_def
      nonneg_total nonneg_or_zero)

theorem counters_nonneg_preserved_witness:
  "counters_nonneg no_account (Some (stats_with solo_example))
   \<and> totalMatches (combinePlayerData (\<lambda>t. t) no_account (Some (stats_with solo_example))
        ''1633864660'' ''IND'') = Finite 100
   \<and> nonneg (Finite 100)"
proof -
  have h: "counters_nonneg no_account (Some (stats_with solo_example))"
    by (simp add: counters_nonneg_def mode_nonneg_def opt_nonneg_def basicInfo_of_def
        no_account_def empty_basic_info_def soloStats_of_def quadStats_of_def stats_with_def
        solo_example_def empty_mode_stats_def detailed_def no_detail_def)
  have v: "totalMatches (combinePlayerData (\<lambda>t. t) no_account (Some (stats_with solo_example))
        ''1633864660'' ''IND'') = Finite 100"
    by (simp add: example_defs fl_numeral)
  from counters_nonneg_preserved [OF h, of "\<lambda>t. t" "''1633864660''" "''IND''"] h v
  show ?thesis by simp
qed



end
